theory Spec2Isabelle
  imports Complex_Main "HOL-Library.Multiset"
begin

section \<open>Numbers: the values of a float64 column\<close>

text \<open>
  Every number the program computes with lives in a pandas column or is a numpy
  scalar of dtype float64 (the integer \<^verbatim>\<open>amount\<close> and the \<^verbatim>\<open>cost\<close> column are
  converted as soon as they meet a float64 operand). A \<open>float64\<close> value is modelled
  as a finite real, one of the two infinities, or NaN. The special values follow
  IEEE 754 as numpy applies it: a division by zero does not raise, it gives an
  infinity or NaN. Rounding, overflow to infinity and the sign of zero are not
  modelled: finite values are computed exactly.
\<close>

datatype float64 = Fin real | PInf | NInf | NaN

fun fneg :: "float64 \<Rightarrow> float64" where
  "fneg (Fin a) = Fin (- a)"
| "fneg PInf = NInf"
| "fneg NInf = PInf"
| "fneg NaN = NaN"

fun fadd :: "float64 \<Rightarrow> float64 \<Rightarrow> float64" where
  "fadd NaN y = NaN"
| "fadd x NaN = NaN"
| "fadd (Fin a) (Fin b) = Fin (a + b)"
| "fadd PInf NInf = NaN"
| "fadd NInf PInf = NaN"
| "fadd PInf y = PInf"
| "fadd x PInf = PInf"
| "fadd NInf y = NInf"
| "fadd x NInf = NInf"

definition fsub :: "float64 \<Rightarrow> float64 \<Rightarrow> float64" where
  "fsub x y = fadd x (fneg y)"

fun fmul :: "float64 \<Rightarrow> float64 \<Rightarrow> float64" where
  "fmul NaN y = NaN"
| "fmul x NaN = NaN"
| "fmul (Fin a) (Fin b) = Fin (a * b)"
| "fmul (Fin a) PInf = (if a = 0 then NaN else if 0 < a then PInf else NInf)"
| "fmul (Fin a) NInf = (if a = 0 then NaN else if 0 < a then NInf else PInf)"
| "fmul PInf (Fin b) = (if b = 0 then NaN else if 0 < b then PInf else NInf)"
| "fmul NInf (Fin b) = (if b = 0 then NaN else if 0 < b then NInf else PInf)"
| "fmul PInf PInf = PInf"
| "fmul PInf NInf = NInf"
| "fmul NInf PInf = NInf"
| "fmul NInf NInf = PInf"

text \<open>
  numpy's true division. A finite non-zero value divided by zero is an infinity,
  zero divided by zero is NaN, and neither raises (numpy only emits a
  RuntimeWarning).
\<close>

fun fdiv :: "float64 \<Rightarrow> float64 \<Rightarrow> float64" where
  "fdiv NaN y = NaN"
| "fdiv x NaN = NaN"
| "fdiv (Fin a) (Fin b) =
     (if b = 0 then (if a = 0 then NaN else if 0 < a then PInf else NInf)
      else Fin (a / b))"
| "fdiv (Fin a) PInf = Fin 0"
| "fdiv (Fin a) NInf = Fin 0"
| "fdiv PInf (Fin b) = (if 0 \<le> b then PInf else NInf)"
| "fdiv NInf (Fin b) = (if 0 \<le> b then NInf else PInf)"
| "fdiv PInf PInf = NaN"
| "fdiv PInf NInf = NaN"
| "fdiv NInf PInf = NaN"
| "fdiv NInf NInf = NaN"

text \<open>The order of the values that are not NaN (NaN compares false with everything).\<close>

fun fle :: "float64 \<Rightarrow> float64 \<Rightarrow> bool" where
  "fle NaN y = False"
| "fle x NaN = False"
| "fle NInf y = True"
| "fle x PInf = True"
| "fle (Fin a) (Fin b) = (a \<le> b)"
| "fle PInf y = False"
| "fle x NInf = False"

definition isnan :: "float64 \<Rightarrow> bool" where
  "isnan x = (x = NaN)"

text \<open>
  \<^verbatim>\<open>Series.sum()\<close> with the defaults \<^verbatim>\<open>skipna=True, min_count=0\<close>: NaN entries are
  left out, and the sum of no entries is 0.
\<close>

definition series_sum :: "float64 list \<Rightarrow> float64" where
  "series_sum xs = foldl fadd (Fin 0) (filter (\<lambda>x. \<not> isnan x) xs)"

text \<open>
  \<^verbatim>\<open>Series.min()\<close> with the default \<^verbatim>\<open>skipna=True\<close>: the least entry that is not
  NaN, and NaN when there is none.
\<close>

definition fmin :: "float64 \<Rightarrow> float64 \<Rightarrow> float64" where
  "fmin x y = (if fle y x then y else x)"

definition series_min :: "float64 list \<Rightarrow> float64" where
  "series_min xs =
     (case filter (\<lambda>x. \<not> isnan x) xs of [] \<Rightarrow> NaN | y # ys \<Rightarrow> foldl fmin y ys)"

section \<open>Timestamps\<close>

text \<open>
  A pandas \<^verbatim>\<open>Timestamp\<close> without time zone is a count of nanoseconds since
  1970-01-01 00:00, a Thursday. \<^verbatim>\<open>index.hour\<close> is the hour of the day (0 to 23)
  and \<^verbatim>\<open>index.dayofweek\<close> the day of the week with Monday = 0 and Sunday = 6.
\<close>

type_synonym timestamp = int

definition ns_per_hour :: int where
  "ns_per_hour = 3600000000000"

definition ns_per_day :: int where
  "ns_per_day = 24 * ns_per_hour"

definition hour_of :: "timestamp \<Rightarrow> int" where
  "hour_of t = (t div ns_per_hour) mod 24"

definition dayofweek :: "timestamp \<Rightarrow> int" where
  "dayofweek t = (t div ns_per_day + 3) mod 7"

section \<open>Data frames\<close>

text \<open>
  A \<^verbatim>\<open>DataFrame\<close> with a \<^verbatim>\<open>DatetimeIndex\<close>: the index, and the columns in their
  order, each a name with its values. Row \<open>i\<close> of the frame is the \<open>i\<close>-th entry of
  the index together with the \<open>i\<close>-th entry of every column.
\<close>

record dataframe =
  index :: "timestamp list"
  columns :: "(string \<times> float64 list) list"

datatype error = KeyError

text \<open>\<^verbatim>\<open>df[name]\<close>: the column, or KeyError when the frame has no such column.\<close>

definition getitem :: "dataframe \<Rightarrow> string \<Rightarrow> error + float64 list" where
  "getitem df name =
     (case map_of (columns df) name of None \<Rightarrow> Inl KeyError | Some c \<Rightarrow> Inr c)"

text \<open>
  \<^verbatim>\<open>df[name] = values\<close>: an existing column is replaced where it stands, a new one is
  added last.
\<close>

definition setitem :: "dataframe \<Rightarrow> string \<Rightarrow> float64 list \<Rightarrow> dataframe" where
  "setitem df name vals =
     df\<lparr>columns :=
       (if name \<in> fst ` set (columns df)
        then map (\<lambda>(n, c). if n = name then (n, vals) else (n, c)) (columns df)
        else columns df @ [(name, vals)])\<rparr>"

text \<open>\<^verbatim>\<open>df[name] = scalar\<close>: the scalar in every row.\<close>

definition setitem_scalar :: "dataframe \<Rightarrow> string \<Rightarrow> float64 \<Rightarrow> dataframe" where
  "setitem_scalar df name v = setitem df name (replicate (length (index df)) v)"

text \<open>\<^verbatim>\<open>df[mask]\<close> with a boolean mask: the rows where the mask is true, in order.\<close>

definition take_mask :: "bool list \<Rightarrow> 'a list \<Rightarrow> 'a list" where
  "take_mask keep xs = map snd (filter fst (zip keep xs))"

definition getitem_mask :: "dataframe \<Rightarrow> bool list \<Rightarrow> dataframe" where
  "getitem_mask df keep =
     \<lparr>index = take_mask keep (index df),
      columns = map (\<lambda>(n, c). (n, take_mask keep c)) (columns df)\<rparr>"

text \<open>
  \<^verbatim>\<open>df.dropna()\<close>: the rows in which no column is NaN. It is applied to frames
  whose columns are as long as the index.
\<close>

definition dropna :: "dataframe \<Rightarrow> dataframe" where
  "dropna df =
     getitem_mask df
       (map (\<lambda>i. list_all (\<lambda>(n, c). \<not> isnan (c ! i)) (columns df))
          [0..<length (index df)])"

text \<open>
  \<^verbatim>\<open>df.resample('H').first()\<close>: one row for every hour from the hour of the
  earliest timestamp to the hour of the latest one, labelled with the start of
  the hour. In each column the row holds the first value of that hour that is not
  NaN, in the order of the timestamps, and NaN when the hour has none.
\<close>

definition hour_floor :: "timestamp \<Rightarrow> timestamp" where
  "hour_floor t = (t div ns_per_hour) * ns_per_hour"

definition hour_bins :: "timestamp list \<Rightarrow> timestamp list" where
  "hour_bins ts =
     (case ts of
        [] \<Rightarrow> []
      | t # r \<Rightarrow>
          let lo = hour_floor (fold min r t); hi = hour_floor (fold max r t)
          in map (\<lambda>k. lo + int k * ns_per_hour)
               [0..<Suc (nat ((hi - lo) div ns_per_hour))])"

definition first_valid :: "float64 list \<Rightarrow> float64" where
  "first_valid xs = (case filter (\<lambda>x. \<not> isnan x) xs of [] \<Rightarrow> NaN | x # _ \<Rightarrow> x)"

definition resample_H_first :: "dataframe \<Rightarrow> dataframe" where
  "resample_H_first df =
     (let bins = hour_bins (index df)
      in \<lparr>index = bins,
          columns =
            map (\<lambda>(n, c).
                  (n, map (\<lambda>b. first_valid
                             (map snd (filter (\<lambda>(t, v). hour_floor t = b)
                                         (sort_key fst (zip (index df) c)))))
                        bins))
              (columns df)\<rparr>)"

section \<open>The store of data frames\<close>

text \<open>
  Data frames are objects: the simulators receive a reference to the caller's
  frame and assign columns in place. The store is the list of the frames
  allocated so far, a reference is a position in it. A program takes the store
  and returns its result, or the exception it raised, with the store it leaves.
\<close>

type_synonym addr = nat
type_synonym heap = "dataframe list"
type_synonym 'a prog = "heap \<Rightarrow> (error + 'a) \<times> heap"

definition preturn :: "'a \<Rightarrow> 'a prog" where
  "preturn x h = (Inr x, h)"

definition pbind :: "'a prog \<Rightarrow> ('a \<Rightarrow> 'b prog) \<Rightarrow> 'b prog" where
  "pbind m f h = (case m h of (Inl e, h1) \<Rightarrow> (Inl e, h1) | (Inr x, h1) \<Rightarrow> f x h1)"

definition lift :: "error + 'a \<Rightarrow> 'a prog" where
  "lift r h = (r, h)"

definition load :: "addr \<Rightarrow> dataframe prog" where
  "load a h = (Inr (h ! a), h)"

definition alloc :: "dataframe \<Rightarrow> addr prog" where
  "alloc df h = (Inr (length h), h @ [df])"

definition modify :: "addr \<Rightarrow> (dataframe \<Rightarrow> dataframe) \<Rightarrow> unit prog" where
  "modify a f h = (Inr (), h[a := f (h ! a)])"

text \<open>A \<^verbatim>\<open>for\<close> loop that appends one entry to a list in each round.\<close>

fun for_each :: "'a list \<Rightarrow> ('a \<Rightarrow> 'b prog) \<Rightarrow> 'b list prog" where
  "for_each [] f = preturn []"
| "for_each (x # xs) f =
     pbind (f x) (\<lambda>y. pbind (for_each xs f) (\<lambda>ys. preturn (y # ys)))"

section \<open>The simulators\<close>

text \<open>
  The three simulators end with the same three statements (lines 21 to 23, 31 to
  33 and 41 to 43 of \<^verbatim>\<open>dca_strategy.py\<close>):
  \<^verbatim>\<open>
    purchases['btc_bought'] = amount / purchases['Open']
    purchases['cost'] = amount
    avg_price = purchases['cost'].sum() / purchases['btc_bought'].sum()
  \<close>
  Both assignments change the frame \<open>purchases\<close> refers to.
\<close>

definition buy_each_row :: "addr \<Rightarrow> float64 \<Rightarrow> float64 prog" where
  "buy_each_row purchases amount =
     pbind (load purchases) (\<lambda>p.
     pbind (lift (getitem p ''Open'')) (\<lambda>opn.
     pbind (modify purchases (\<lambda>p. setitem p ''btc_bought'' (map (fdiv amount) opn))) (\<lambda>_.
     pbind (modify purchases (\<lambda>p. setitem_scalar p ''cost'' amount)) (\<lambda>_.
     pbind (load purchases) (\<lambda>p.
     pbind (lift (getitem p ''cost'')) (\<lambda>cost.
     pbind (lift (getitem p ''btc_bought'')) (\<lambda>btc_bought.
     preturn (fdiv (series_sum cost) (series_sum btc_bought)))))))))"

text \<open>\<^verbatim>\<open>df.copy()\<close>: a new frame with the same contents.\<close>

definition copy :: "addr \<Rightarrow> addr prog" where
  "copy a = pbind (load a) alloc"

text \<open>
  \<^verbatim>\<open>purchases = data.resample('H').first().dropna()\<close>: \<^verbatim>\<open>first()\<close> and
  \<^verbatim>\<open>dropna()\<close> each build a new frame.
\<close>

definition simulate_hourly_dca :: "addr \<Rightarrow> float64 \<Rightarrow> (addr \<times> float64) prog" where
  "simulate_hourly_dca data amount =
     pbind (load data) (\<lambda>df.
     pbind (alloc (resample_H_first df)) (\<lambda>firsts.
     pbind (load firsts) (\<lambda>f.
     pbind (alloc (dropna f)) (\<lambda>purchases.
     pbind (buy_each_row purchases amount) (\<lambda>avg_price.
     preturn (purchases, avg_price))))))"

text \<open>
  \<^verbatim>\<open>purchases = data[data.index.hour == hour].copy()\<close>: the selection with a
  boolean mask builds a new frame, and \<^verbatim>\<open>copy()\<close> another one.
\<close>

definition simulate_daily_dca :: "addr \<Rightarrow> int \<Rightarrow> float64 \<Rightarrow> (addr \<times> float64) prog" where
  "simulate_daily_dca data hour amount =
     pbind (load data) (\<lambda>df.
     pbind (alloc (getitem_mask df (map (\<lambda>t. hour_of t = hour) (index df)))) (\<lambda>selected.
     pbind (copy selected) (\<lambda>purchases.
     pbind (buy_each_row purchases amount) (\<lambda>avg_price.
     preturn (purchases, avg_price)))))"

definition simulate_weekly_dca ::
  "addr \<Rightarrow> int \<Rightarrow> int \<Rightarrow> float64 \<Rightarrow> (addr \<times> float64) prog" where
  "simulate_weekly_dca data weekday hour amount =
     pbind (load data) (\<lambda>df.
     pbind (alloc (getitem_mask df
                     (map (\<lambda>t. dayofweek t = weekday \<and> hour_of t = hour) (index df)))) (\<lambda>selected.
     pbind (copy selected) (\<lambda>purchases.
     pbind (buy_each_row purchases amount) (\<lambda>avg_price.
     preturn (purchases, avg_price)))))"

section \<open>The comparison of the strategies\<close>

text \<open>
  An entry of the list \<^verbatim>\<open>results\<close>, and a row of \<^verbatim>\<open>results_df\<close> once the column
  \<^verbatim>\<open>Relative_Deviation\<close> is there.
\<close>

record result =
  Strategy :: string
  Avg_Price :: float64

record ranked = result +
  Relative_Deviation :: float64

text \<open>
  The labels. \<^verbatim>\<open>f'{hour}'\<close> prints the integer in decimal, with no padding.
\<close>

fun str_nat :: "nat \<Rightarrow> string" where
  "str_nat n =
     (if n < 10 then [''0123456789'' ! n]
      else str_nat (n div 10) @ [''0123456789'' ! (n mod 10)])"

declare str_nat.simps [simp del]

definition day_names :: "string list" where
  "day_names =
     [''Monday'', ''Tuesday'', ''Wednesday'', ''Thursday'', ''Friday'', ''Saturday'', ''Sunday'']"

text \<open>
  \<^verbatim>\<open>f'Weekly {"Monday ... Sunday".split()[day]} {hour}:00'\<close>, evaluated for \<open>day\<close>
  in \<^verbatim>\<open>range(7)\<close> only, and \<^verbatim>\<open>f'Daily {hour}:00'\<close>.
\<close>

definition weekly_label :: "nat \<Rightarrow> nat \<Rightarrow> string" where
  "weekly_label day hour = ''Weekly '' @ day_names ! day @ '' '' @ str_nat hour @ '':00''"

definition daily_label :: "nat \<Rightarrow> string" where
  "daily_label hour = ''Daily '' @ str_nat hour @ '':00''"

text \<open>
  \<^verbatim>\<open>sort_values(by='Avg_Price')\<close>: ascending, with the rows whose price is NaN
  last, in the order they had (\<^verbatim>\<open>na_position='last'\<close>). pandas sorts the other
  rows with numpy's quicksort, which fixes no order among rows of equal price;
  here they keep the order they had.
\<close>

fun insort_price :: "result \<Rightarrow> result list \<Rightarrow> result list" where
  "insort_price r [] = [r]"
| "insort_price r (s # ss) =
     (if fle (Avg_Price r) (Avg_Price s) then r # s # ss else s # insort_price r ss)"

definition sort_values :: "result list \<Rightarrow> result list" where
  "sort_values rs =
     foldr insort_price (filter (\<lambda>r. \<not> isnan (Avg_Price r)) rs) []
       @ filter (\<lambda>r. isnan (Avg_Price r)) rs"

text \<open>
  \<^verbatim>\<open>((df['Avg_Price'] - best) / best) * 100\<close>, assigned to the column
  \<^verbatim>\<open>Relative_Deviation\<close> (line 172, and line 96 in the bar chart).
\<close>

definition relative_deviation :: "float64 \<Rightarrow> float64 \<Rightarrow> float64" where
  "relative_deviation best price = fmul (fdiv (fsub price best) best) (Fin 100)"

definition set_relative_deviation :: "float64 \<Rightarrow> 'a result_scheme list \<Rightarrow> ranked list" where
  "set_relative_deviation best rs =
     map (\<lambda>r. \<lparr>Strategy = Strategy r, Avg_Price = Avg_Price r,
               Relative_Deviation = relative_deviation best (Avg_Price r)\<rparr>) rs"

text \<open>
  Lines 148 to 172 of \<^verbatim>\<open>main\<close>, under the comment \<^verbatim>\<open># Compare strategies\<close>: the
  168 weekly strategies, the 24 daily ones and the hourly one, each with the
  amount 100, sorted by average price, with the deviation from the least one.
\<close>

definition compare_strategies :: "addr \<Rightarrow> ranked list prog" where
  "compare_strategies filtered_data =
     pbind (for_each [0..<7] (\<lambda>day. for_each [0..<24] (\<lambda>hour.
              pbind (simulate_weekly_dca filtered_data (int day) (int hour) (Fin 100))
                (\<lambda>(_, avg_price).
              preturn \<lparr>Strategy = weekly_label day hour, Avg_Price = avg_price\<rparr>)))) (\<lambda>weekly.
     pbind (for_each [0..<24] (\<lambda>hour.
              pbind (simulate_daily_dca filtered_data (int hour) (Fin 100)) (\<lambda>(_, avg_price).
              preturn \<lparr>Strategy = daily_label hour, Avg_Price = avg_price\<rparr>))) (\<lambda>daily.
     pbind (simulate_hourly_dca filtered_data (Fin 100)) (\<lambda>(_, avg_price).
     let results = concat weekly @ daily @ [\<lparr>Strategy = ''Hourly'', Avg_Price = avg_price\<rparr>];
         results_df = sort_values results
     in preturn (set_relative_deviation (series_min (map Avg_Price results_df)) results_df))))"

section \<open>The bar charts\<close>

text \<open>
  \<^verbatim>\<open>visualize_bar_chart\<close>, up to the values it plots: the first 30 rows of its
  input, with the deviation from the least price among these 30. The drawing
  itself is not modelled.
\<close>

definition visualize_bar_chart :: "ranked list \<Rightarrow> ranked list" where
  "visualize_bar_chart results =
     (let top_30 = take 30 results;
          best_price = series_min (map Avg_Price top_30)
      in set_relative_deviation best_price top_30)"

definition startswith :: "string \<Rightarrow> string \<Rightarrow> bool" where
  "startswith s p = (take (length p) s = p)"

definition visualize_filtered_bar_chart :: "ranked list \<Rightarrow> ranked list" where
  "visualize_filtered_bar_chart results =
     (let filtered_results = filter (\<lambda>r. \<not> startswith (Strategy r) ''Weekly'') results
      in visualize_bar_chart filtered_results)"

section \<open>The driver\<close>

text \<open>
  The test of line 137 on the two dates entered, once both have parsed
  (\<^verbatim>\<open>strptime\<close> with \<^verbatim>\<open>%Y-%m-%d\<close> gives the midnight that starts the day).
\<close>

definition date_range_ok :: "dataframe \<Rightarrow> timestamp \<Rightarrow> timestamp \<Rightarrow> bool" where
  "date_range_ok data start_date end_date =
     (case index data of
        [] \<Rightarrow> False
      | t # r \<Rightarrow>
          let min_date = fold min r t; max_date = fold max r t
          in min_date \<le> start_date \<and> start_date \<le> max_date \<and>
             min_date \<le> end_date \<and> end_date \<le> max_date \<and> start_date \<le> end_date)"

text \<open>
  \<^verbatim>\<open>data.loc[start_date:end_date]\<close> with two \<^verbatim>\<open>datetime\<close> bounds. For bounds
  that are not strings, \<^verbatim>\<open>DatetimeIndex.slice_indexer\<close> turns each bound into a
  position with \<^verbatim>\<open>Index.get_slice_bound\<close> and the slice into a slice of
  positions, whatever the order of the index:

  \<^item> a bound that occurs in the index (\<^verbatim>\<open>get_loc\<close> finds it) gives the position of
    its first occurrence on the left side, and the position after its last
    occurrence on the right side; when its occurrences are not next to one
    another, \<^verbatim>\<open>get_slice_bound\<close> raises KeyError;
  \<^item> a bound that does not occur gives the position \<^verbatim>\<open>searchsorted\<close> finds on an
    index in ascending order, the mirrored position on an index in descending
    order, and KeyError on any other index.

  The result holds the rows from the left position up to, not including, the
  right one, and no row when the left position is not before the right one.
\<close>

datatype side = LeftSide | RightSide

definition get_slice_bound :: "timestamp list \<Rightarrow> timestamp \<Rightarrow> side \<Rightarrow> error + nat" where
  "get_slice_bound idx label sd =
     (if label \<in> set idx then
        (let start = length (takeWhile (\<lambda>t. t \<noteq> label) idx);
             stop = length idx - length (takeWhile (\<lambda>t. t \<noteq> label) (rev idx))
         in if list_all (\<lambda>t. t = label) (take (stop - start) (drop start idx))
            then Inr (case sd of LeftSide \<Rightarrow> start | RightSide \<Rightarrow> stop)
            else Inl KeyError)
      else if sorted idx then
        Inr (case sd of
               LeftSide \<Rightarrow> length (filter (\<lambda>t. t < label) idx)
             | RightSide \<Rightarrow> length (filter (\<lambda>t. t \<le> label) idx))
      else if sorted (rev idx) then
        Inr (case sd of
               LeftSide \<Rightarrow> length idx - length (filter (\<lambda>t. t \<le> label) idx)
             | RightSide \<Rightarrow> length idx - length (filter (\<lambda>t. t < label) idx))
      else Inl KeyError)"

text \<open>The rows at the positions from \<open>start\<close> up to, not including, \<open>stop\<close>.\<close>

definition iloc_slice :: "dataframe \<Rightarrow> nat \<Rightarrow> nat \<Rightarrow> dataframe" where
  "iloc_slice df start stop =
     \<lparr>index = take (stop - start) (drop start (index df)),
      columns = map (\<lambda>(n, c). (n, take (stop - start) (drop start c))) (columns df)\<rparr>"

definition loc_slice :: "dataframe \<Rightarrow> timestamp \<Rightarrow> timestamp \<Rightarrow> error + dataframe" where
  "loc_slice df start_date end_date =
     (case get_slice_bound (index df) start_date LeftSide of
        Inl e \<Rightarrow> Inl e
      | Inr start \<Rightarrow>
          (case get_slice_bound (index df) end_date RightSide of
             Inl e \<Rightarrow> Inl e
           | Inr stop \<Rightarrow> Inr (iloc_slice df start stop)))"

text \<open>
  \<^verbatim>\<open>main\<close> from line 145 on, for the frame \<open>data\<close> that \<^verbatim>\<open>prepare_data\<close> loaded
  and the two dates the prompt accepted. It returns what it writes to the CSV
  file and the values of the two bar charts; the heat maps are not modelled.
\<close>

definition main :: "addr \<Rightarrow> timestamp \<Rightarrow> timestamp \<Rightarrow> (ranked list \<times> ranked list \<times> ranked list) prog" where
  "main data start_date end_date =
     pbind (load data) (\<lambda>df.
     pbind (lift (loc_slice df start_date end_date)) (\<lambda>sliced.
     pbind (alloc sliced) (\<lambda>filtered_data.
     pbind (compare_strategies filtered_data) (\<lambda>results_df.
     preturn (results_df, visualize_bar_chart results_df,
              visualize_filtered_bar_chart results_df)))))"

section \<open>What the simulators compute\<close>

text \<open>
  The definitions of this section restate what the programs above compute as
  functions of the frame they read. The lemmas that follow prove that they do.
\<close>

text \<open>The frame \<open>purchases\<close> after the two assignments, and the average price.\<close>

definition purchases_frame :: "dataframe \<Rightarrow> float64 \<Rightarrow> float64 list \<Rightarrow> dataframe" where
  "purchases_frame p amount opn =
     setitem_scalar (setitem p ''btc_bought'' (map (fdiv amount) opn)) ''cost'' amount"

definition average_price :: "float64 \<Rightarrow> nat \<Rightarrow> float64 list \<Rightarrow> float64" where
  "average_price amount n opn =
     fdiv (series_sum (replicate n amount)) (series_sum (map (fdiv amount) opn))"

text \<open>
  The rows the daily, the weekly and the hourly simulator buy at, the Open prices
  of a frame, and the average price over a selection of rows.
\<close>

definition daily_rows :: "dataframe \<Rightarrow> int \<Rightarrow> dataframe" where
  "daily_rows df hour = getitem_mask df (map (\<lambda>t. hour_of t = hour) (index df))"

definition weekly_rows :: "dataframe \<Rightarrow> int \<Rightarrow> int \<Rightarrow> dataframe" where
  "weekly_rows df weekday hour =
     getitem_mask df (map (\<lambda>t. dayofweek t = weekday \<and> hour_of t = hour) (index df))"

definition hourly_rows :: "dataframe \<Rightarrow> dataframe" where
  "hourly_rows df = dropna (resample_H_first df)"

definition open_prices :: "dataframe \<Rightarrow> float64 list" where
  "open_prices df = (case getitem df ''Open'' of Inl e \<Rightarrow> [] | Inr c \<Rightarrow> c)"

definition frame_average :: "float64 \<Rightarrow> dataframe \<Rightarrow> float64" where
  "frame_average amount sel = average_price amount (length (index sel)) (open_prices sel)"

text \<open>
  A program that, started in a store where \<open>d\<close> refers to the frame \<open>df\<close>, returns
  \<open>v\<close> and leaves every frame of the store as it was, adding new ones only.
\<close>

definition reads_only :: "addr \<Rightarrow> dataframe \<Rightarrow> 'a prog \<Rightarrow> 'a \<Rightarrow> bool" where
  "reads_only d df m v = (\<forall>h. d < length h \<and> h ! d = df \<longrightarrow> (\<exists>ext. m h = (Inr v, h @ ext)))"

text \<open>The list \<^verbatim>\<open>results\<close> and the ranked table, as functions of the filtered frame.\<close>

definition all_results :: "dataframe \<Rightarrow> result list" where
  "all_results df =
     concat (map (\<lambda>day. map (\<lambda>hour.
        \<lparr>Strategy = weekly_label day hour,
         Avg_Price = frame_average (Fin 100) (weekly_rows df (int day) (int hour))\<rparr>) [0..<24]) [0..<7])
     @ map (\<lambda>hour. \<lparr>Strategy = daily_label hour,
                     Avg_Price = frame_average (Fin 100) (daily_rows df (int hour))\<rparr>) [0..<24]
     @ [\<lparr>Strategy = ''Hourly'', Avg_Price = frame_average (Fin 100) (hourly_rows df)\<rparr>]"

definition ranked_table :: "dataframe \<Rightarrow> ranked list" where
  "ranked_table df =
     set_relative_deviation (series_min (map Avg_Price (sort_values (all_results df))))
       (sort_values (all_results df))"

section \<open>Rows\<close>

text \<open>Row \<open>i\<close> of a frame, and the frames in which every column is as long as the index.\<close>

definition row :: "dataframe \<Rightarrow> nat \<Rightarrow> timestamp \<times> (string \<times> float64) list" where
  "row df i = (index df ! i, map (\<lambda>(n, c). (n, c ! i)) (columns df))"

definition rectangular :: "dataframe \<Rightarrow> bool" where
  "rectangular df = list_all (\<lambda>(n, c). length c = length (index df)) (columns df)"

section \<open>The labels of the specification\<close>

text \<open>
  The format \<^verbatim>\<open>HH:00\<close> of the specification, section 4.3: the hour in two digits,
  padded with a zero, and the labels the specification describes with it. They
  are here to be compared with the labels the code builds.
\<close>

definition HH_00 :: "nat \<Rightarrow> string" where
  "HH_00 hour = [''0123456789'' ! (hour div 10), ''0123456789'' ! (hour mod 10)] @ '':00''"

definition label_in_HH_00_format :: "string \<Rightarrow> bool" where
  "label_in_HH_00_format s =
     (s = ''Hourly'' \<or>
      list_ex (\<lambda>hour. s = ''Daily '' @ HH_00 hour) [0..<24] \<or>
      list_ex (\<lambda>day. list_ex (\<lambda>hour. s = ''Weekly '' @ day @ '' '' @ HH_00 hour) [0..<24])
        day_names)"

section \<open>Fixtures\<close>

text \<open>Three rows, one week apart, at 00:00 on a Thursday, with the prices 10, 20 and 30.\<close>

definition fixture_10_20_30 :: dataframe where
  "fixture_10_20_30 =
     \<lparr>index = [0, 7 * ns_per_day, 14 * ns_per_day],
      columns = [(''Open'', [Fin 10, Fin 20, Fin 30])]\<rparr>"

text \<open>Three rows, one hour apart, with the prices 10, 20 and 30.\<close>

definition fixture_3_hours :: dataframe where
  "fixture_3_hours =
     \<lparr>index = [0, ns_per_hour, 2 * ns_per_hour],
      columns = [(''Open'', [Fin 10, Fin 20, Fin 30])]\<rparr>"

text \<open>Two rows ten days apart, on 1970-01-01 and 1970-01-11, both with the price 100.\<close>

definition fixture_gap :: dataframe where
  "fixture_gap =
     \<lparr>index = [0, 10 * ns_per_day], columns = [(''Open'', [Fin 100, Fin 100])]\<rparr>"

text \<open>Six rows over four days: midnight of each day, and 01:00 of the second and third day.\<close>

definition fixture_4_days :: dataframe where
  "fixture_4_days =
     \<lparr>index = [0, ns_per_day, ns_per_day + ns_per_hour, 2 * ns_per_day, 2 * ns_per_day + ns_per_hour,
               3 * ns_per_day],
      columns = [(''Open'', [Fin 10, Fin 20, Fin 30, Fin 40, Fin 50, Fin 60])]\<rparr>"

text \<open>
  Four rows one day apart with the newest first, as a file listed from the latest
  day back gives them: 1970-01-04, 1970-01-03, 1970-01-02 and 1970-01-01.
\<close>

definition fixture_newest_first :: dataframe where
  "fixture_newest_first =
     \<lparr>index = [3 * ns_per_day, 2 * ns_per_day, ns_per_day, 0],
      columns = [(''Open'', [Fin 40, Fin 30, Fin 20, Fin 10])]\<rparr>"

text \<open>
  Three rows: Thursday 1970-01-01 at 00:00 with the price 25 and at 01:00 with the
  price 100, and Friday 1970-01-02 at 00:00 with the price 100. With the amount
  100 every quantity, sum and quotient of this table is a float64 value without
  rounding.
\<close>

definition fixture_two_days :: dataframe where
  "fixture_two_days =
     \<lparr>index = [0, ns_per_hour, ns_per_day],
      columns = [(''Open'', [Fin 25, Fin 100, Fin 100])]\<rparr>"

text \<open>48 rows one hour apart from 1970-01-01 00:00, all with the price 100.\<close>

definition fixture_48_hours :: dataframe where
  "fixture_48_hours =
     \<lparr>index = map (\<lambda>k. int k * ns_per_hour) [0..<48],
      columns = [(''Open'', replicate 48 (Fin 100))]\<rparr>"

section \<open>Columns and sums\<close>

lemma map_of_replace:
  "name \<in> fst ` set cols \<Longrightarrow>
   map_of (map (\<lambda>(n, c). if n = name then (n, vals) else (n, c)) cols) name = Some vals"
  by (induction cols) auto

lemma map_of_replace_other:
  "m \<noteq> name \<Longrightarrow>
   map_of (map (\<lambda>(n, c). if n = name then (n, vals) else (n, c)) cols) m = map_of cols m"
  by (induction cols) auto

lemma map_of_append_new:
  "name \<notin> fst ` set cols \<Longrightarrow>
   map_of (cols @ [(name, vals)]) m = (if m = name then Some vals else map_of cols m)"
  by (induction cols) auto

lemma getitem_setitem_same: "getitem (setitem df name vals) name = Inr vals"
  by (simp add: getitem_def setitem_def map_of_replace map_of_append_new del: map_of_append)

lemma getitem_setitem_other:
  "m \<noteq> name \<Longrightarrow> getitem (setitem df name vals) m = getitem df m"
  by (simp add: getitem_def setitem_def map_of_replace_other map_of_append_new del: map_of_append)

lemma index_setitem: "index (setitem df name vals) = index df"
  by (simp add: setitem_def)

lemma buy_each_row_eq:
  "a < length h \<Longrightarrow>
   buy_each_row a amount h =
     (case getitem (h ! a) ''Open'' of
        Inl e \<Rightarrow> (Inl e, h)
      | Inr opn \<Rightarrow>
          (Inr (average_price amount (length (index (h ! a))) opn),
           h[a := purchases_frame (h ! a) amount opn]))"
  by (simp add: buy_each_row_def pbind_def load_def lift_def modify_def preturn_def
      purchases_frame_def average_price_def setitem_scalar_def
      getitem_setitem_same getitem_setitem_other index_setitem split: sum.splits)

lemma simulate_daily_dca_eq:
  "data < length h \<Longrightarrow>
   simulate_daily_dca data hour amount h =
     (let sel = daily_rows (h ! data) hour
      in case getitem sel ''Open'' of
           Inl e \<Rightarrow> (Inl e, h @ [sel, sel])
         | Inr opn \<Rightarrow>
             (Inr (Suc (length h), average_price amount (length (index sel)) opn),
              h @ [sel, purchases_frame sel amount opn]))"
  unfolding simulate_daily_dca_def copy_def
  by (simp add: pbind_def load_def alloc_def preturn_def buy_each_row_eq nth_append daily_rows_def Let_def
       list_update_append split: sum.splits)

lemma simulate_weekly_dca_eq:
  "data < length h \<Longrightarrow>
   simulate_weekly_dca data weekday hour amount h =
     (let sel = weekly_rows (h ! data) weekday hour
      in case getitem sel ''Open'' of
           Inl e \<Rightarrow> (Inl e, h @ [sel, sel])
         | Inr opn \<Rightarrow>
             (Inr (Suc (length h), average_price amount (length (index sel)) opn),
              h @ [sel, purchases_frame sel amount opn]))"
  unfolding simulate_weekly_dca_def copy_def
  by (simp add: pbind_def load_def alloc_def preturn_def buy_each_row_eq nth_append
       weekly_rows_def Let_def list_update_append split: sum.splits)

lemma take_mask_filter:
  "take_mask (map P ts) xs = map snd (filter (\<lambda>(t, x). P t) (zip ts xs))"
proof (induction ts arbitrary: xs)
  case Nil
  then show ?case by (simp add: take_mask_def)
next
  case (Cons t ts)
  then show ?case by (cases xs) (auto simp: take_mask_def)
qed

lemma length_take_mask:
  "length xs = length ys \<Longrightarrow> length (take_mask keep xs) = length (take_mask keep ys)"
proof (induction keep arbitrary: xs ys)
  case Nil
  then show ?case by (simp add: take_mask_def)
next
  case (Cons k keep)
  then show ?case by (cases xs; cases ys) (auto simp: take_mask_def)
qed

lemma getitem_getitem_mask:
  "getitem (getitem_mask df keep) name =
     (case getitem df name of Inl e \<Rightarrow> Inl e | Inr c \<Rightarrow> Inr (take_mask keep c))"
  by (simp add: getitem_def getitem_mask_def map_of_map split: option.splits)

lemma foldl_fadd_Fin: "foldl fadd (Fin a) (map Fin rs) = Fin (a + sum_list rs)"
  by (induction rs arbitrary: a) (simp_all add: add.assoc)

lemma series_sum_Fin: "series_sum (map Fin rs) = Fin (sum_list rs)"
proof -
  have "filter (\<lambda>x. \<not> isnan x) (map Fin rs) = map Fin rs"
    by (induction rs) (simp_all add: isnan_def)
  then show ?thesis by (simp add: series_sum_def foldl_fadd_Fin)
qed

lemma series_sum_replicate: "series_sum (replicate n (Fin a)) = Fin (real n * a)"
proof -
  have "replicate n (Fin a) = map Fin (replicate n a)" by simp
  then show ?thesis by (simp only: series_sum_Fin sum_list_replicate)
qed

lemma map_fdiv_Fin:
  "\<forall>p\<in>set ps. p \<noteq> 0 \<Longrightarrow> map (fdiv (Fin a)) (map Fin ps) = map Fin (map (\<lambda>p. a / p) ps)"
  by (induction ps) simp_all

lemma sum_list_pos_real:
  "ps \<noteq> [] \<Longrightarrow> \<forall>p\<in>set ps. (0::real) < f p \<Longrightarrow> 0 < sum_list (map f ps)"
proof (induction ps)
  case Nil
  then show ?case by simp
next
  case (Cons q qs)
  have "0 \<le> sum_list (map f qs)"
    using Cons.prems(2) by (intro sum_list_nonneg) (auto simp: less_imp_le)
  moreover have "0 < f q" using Cons.prems(2) by simp
  ultimately show ?case by simp
qed

lemma average_price_closed_form:
  assumes "0 < a" and "ps \<noteq> []" and "\<forall>p\<in>set ps. 0 < p"
  shows "average_price (Fin a) (length ps) (map Fin ps) =
           Fin (real (length ps) / (\<Sum>p\<leftarrow>ps. 1 / p))"
proof -
  have nz: "\<forall>p\<in>set ps. p \<noteq> 0" using assms(3) by auto
  have pos: "0 < (\<Sum>p\<leftarrow>ps. 1 / p)"
    using assms(2,3) by (intro sum_list_pos_real) auto
  have "(\<Sum>p\<leftarrow>ps. a / p) = a * (\<Sum>p\<leftarrow>ps. 1 / p)"
    by (induction ps) (simp_all add: algebra_simps)
  then have qty: "series_sum (map (fdiv (Fin a)) (map Fin ps)) = Fin (a * (\<Sum>p\<leftarrow>ps. 1 / p))"
    by (simp only: map_fdiv_Fin [OF nz] series_sum_Fin)
  have cost: "series_sum (replicate (length ps) (Fin a)) = Fin (real (length ps) * a)"
    by (rule series_sum_replicate)
  show ?thesis
    unfolding average_price_def qty cost using pos assms(1) by simp
qed

lemma selected_average_price:
  assumes opn: "getitem df ''Open'' = Inr opn"
    and len: "length opn = length (index df)"
    and sel: "map snd (filter (\<lambda>(t, p). P t) (zip (index df) opn)) = map Fin ps"
    and pos: "0 < a" "ps \<noteq> []" "\<forall>p\<in>set ps. 0 < p"
  shows "getitem (getitem_mask df (map P (index df))) ''Open'' = Inr (map Fin ps)"
    and "average_price (Fin a) (length (index (getitem_mask df (map P (index df))))) (map Fin ps) =
           Fin (real (length ps) / (\<Sum>p\<leftarrow>ps. 1 / p))"
proof -
  have tm: "take_mask (map P (index df)) opn = map Fin ps"
    using sel by (simp add: take_mask_filter)
  show "getitem (getitem_mask df (map P (index df))) ''Open'' = Inr (map Fin ps)"
    by (simp add: getitem_getitem_mask opn tm)
  have "length (index (getitem_mask df (map P (index df)))) =
          length (take_mask (map P (index df)) opn)"
    using length_take_mask [OF len, of "map P (index df)"] by (simp add: getitem_mask_def)
  then have "length (index (getitem_mask df (map P (index df)))) = length ps"
    by (simp add: tm)
  then show "average_price (Fin a) (length (index (getitem_mask df (map P (index df))))) (map Fin ps) =
           Fin (real (length ps) / (\<Sum>p\<leftarrow>ps. 1 / p))"
    using average_price_closed_form [OF pos] by simp
qed

section \<open>The simulators and the comparison as functions of the frame\<close>

lemma simulate_hourly_dca_eq:
  "data < length h \<Longrightarrow>
   simulate_hourly_dca data amount h =
     (let firsts = resample_H_first (h ! data); sel = dropna firsts
      in case getitem sel ''Open'' of
           Inl e \<Rightarrow> (Inl e, h @ [firsts, sel])
         | Inr opn \<Rightarrow>
             (Inr (Suc (length h), average_price amount (length (index sel)) opn),
              h @ [firsts, purchases_frame sel amount opn]))"
  unfolding simulate_hourly_dca_def
  by (simp add: pbind_def load_def alloc_def preturn_def buy_each_row_eq nth_append
       Let_def list_update_append split: sum.splits)

lemma getitem_resample_H_first:
  "getitem df name = Inr c \<Longrightarrow> \<exists>c'. getitem (resample_H_first df) name = Inr c'"
  by (auto simp add: getitem_def resample_H_first_def Let_def map_of_map split: option.splits)

lemma getitem_dropna:
  "getitem df name = Inr c \<Longrightarrow> \<exists>c'. getitem (dropna df) name = Inr c'"
  by (simp add: dropna_def getitem_getitem_mask)

lemma getitem_hourly_rows:
  "getitem df name = Inr c \<Longrightarrow> \<exists>c'. getitem (hourly_rows df) name = Inr c'"
  unfolding hourly_rows_def using getitem_resample_H_first getitem_dropna by blast

lemma daily_value:
  assumes "d < length h" and "getitem (h ! d) ''Open'' = Inr opn"
  shows "\<exists>ext. simulate_daily_dca d hour amount h =
           (Inr (Suc (length h), frame_average amount (daily_rows (h ! d) hour)), h @ ext)"
  using assms
  by (simp add: simulate_daily_dca_eq Let_def daily_rows_def getitem_getitem_mask
      frame_average_def open_prices_def)

lemma weekly_value:
  assumes "d < length h" and "getitem (h ! d) ''Open'' = Inr opn"
  shows "\<exists>ext. simulate_weekly_dca d weekday hour amount h =
           (Inr (Suc (length h), frame_average amount (weekly_rows (h ! d) weekday hour)), h @ ext)"
  using assms
  by (simp add: simulate_weekly_dca_eq Let_def weekly_rows_def getitem_getitem_mask
      frame_average_def open_prices_def)

lemma hourly_value:
  assumes "d < length h" and "getitem (h ! d) ''Open'' = Inr opn"
  shows "\<exists>ext. simulate_hourly_dca d amount h =
           (Inr (Suc (length h), frame_average amount (hourly_rows (h ! d))), h @ ext)"
proof -
  obtain c where "getitem (hourly_rows (h ! d)) ''Open'' = Inr c"
    using getitem_hourly_rows [OF assms(2)] by blast
  then show ?thesis using assms(1)
    by (simp add: simulate_hourly_dca_eq Let_def hourly_rows_def frame_average_def open_prices_def)
qed

lemma reads_only_preturn: "reads_only d df (preturn v) v"
  by (simp add: reads_only_def preturn_def)

lemma reads_only_pbind:
  assumes "reads_only d df m v" and "reads_only d df (k v) w"
  shows "reads_only d df (pbind m k) w"
  unfolding reads_only_def
proof (intro allI impI)
  fix h assume h: "d < length h \<and> h ! d = df"
  then obtain ext where m: "m h = (Inr v, h @ ext)"
    using assms(1) by (auto simp: reads_only_def)
  have "d < length (h @ ext) \<and> (h @ ext) ! d = df"
    using h by (simp add: nth_append)
  then obtain ext' where "k v (h @ ext) = (Inr w, (h @ ext) @ ext')"
    using assms(2) unfolding reads_only_def by blast
  then show "\<exists>e. pbind m k h = (Inr w, h @ e)"
    using m by (simp add: pbind_def)
qed

lemma reads_only_for_each:
  assumes "\<And>x. x \<in> set xs \<Longrightarrow> reads_only d df (f x) (g x)"
  shows "reads_only d df (for_each xs f) (map g xs)"
  using assms
proof (induction xs)
  case Nil
  then show ?case by (simp add: reads_only_preturn)
next
  case (Cons x xs)
  have tl: "reads_only d df (for_each xs f) (map g xs)"
    using Cons by simp
  have hd: "reads_only d df (f x) (g x)"
    using Cons.prems by simp
  show ?case
    by (simp, intro reads_only_pbind [OF hd] reads_only_pbind [OF tl] reads_only_preturn)
qed

lemma reads_only_weekly:
  assumes "getitem df ''Open'' = Inr opn"
  shows "reads_only d df
           (pbind (simulate_weekly_dca d weekday hour amount) (\<lambda>(_, avg_price). preturn (f avg_price)))
           (f (frame_average amount (weekly_rows df weekday hour)))"
  unfolding reads_only_def
proof (intro allI impI)
  fix h assume h: "d < length h \<and> h ! d = df"
  then obtain ext where "simulate_weekly_dca d weekday hour amount h =
           (Inr (Suc (length h), frame_average amount (weekly_rows df weekday hour)), h @ ext)"
    using weekly_value [of d h opn weekday hour amount] assms by auto
  then show "\<exists>e. pbind (simulate_weekly_dca d weekday hour amount)
                 (\<lambda>(_, avg_price). preturn (f avg_price)) h =
               (Inr (f (frame_average amount (weekly_rows df weekday hour))), h @ e)"
    by (simp add: pbind_def preturn_def)
qed

lemma reads_only_daily:
  assumes "getitem df ''Open'' = Inr opn"
  shows "reads_only d df
           (pbind (simulate_daily_dca d hour amount) (\<lambda>(_, avg_price). preturn (f avg_price)))
           (f (frame_average amount (daily_rows df hour)))"
  unfolding reads_only_def
proof (intro allI impI)
  fix h assume h: "d < length h \<and> h ! d = df"
  then obtain ext where "simulate_daily_dca d hour amount h =
           (Inr (Suc (length h), frame_average amount (daily_rows df hour)), h @ ext)"
    using daily_value [of d h opn hour amount] assms by auto
  then show "\<exists>e. pbind (simulate_daily_dca d hour amount)
                 (\<lambda>(_, avg_price). preturn (f avg_price)) h =
               (Inr (f (frame_average amount (daily_rows df hour))), h @ e)"
    by (simp add: pbind_def preturn_def)
qed

lemma reads_only_hourly:
  assumes "getitem df ''Open'' = Inr opn"
  shows "reads_only d df
           (pbind (simulate_hourly_dca d amount) (\<lambda>(_, avg_price). preturn (f avg_price)))
           (f (frame_average amount (hourly_rows df)))"
  unfolding reads_only_def
proof (intro allI impI)
  fix h assume h: "d < length h \<and> h ! d = df"
  then obtain ext where "simulate_hourly_dca d amount h =
           (Inr (Suc (length h), frame_average amount (hourly_rows df)), h @ ext)"
    using hourly_value [of d h opn amount] assms by auto
  then show "\<exists>e. pbind (simulate_hourly_dca d amount)
                 (\<lambda>(_, avg_price). preturn (f avg_price)) h =
               (Inr (f (frame_average amount (hourly_rows df))), h @ e)"
    by (simp add: pbind_def preturn_def)
qed

lemma reads_only_compare_strategies:
  assumes opn: "getitem df ''Open'' = Inr opn"
  shows "reads_only d df (compare_strategies d) (ranked_table df)"
  unfolding compare_strategies_def ranked_table_def all_results_def Let_def
  apply (rule reads_only_pbind)
   apply (rule reads_only_for_each)
   apply (rule reads_only_for_each)
   apply (rule reads_only_weekly [OF opn])
  apply (rule reads_only_pbind)
   apply (rule reads_only_for_each)
   apply (rule reads_only_daily [OF opn])
  apply (rule reads_only_hourly [OF opn])
  done

section \<open>Selections that are empty\<close>

lemma getitem_in_columns: "getitem df name = Inr c \<Longrightarrow> (name, c) \<in> set (columns df)"
  by (auto simp: getitem_def split: option.splits dest: map_of_SomeD)

lemma resample_H_first_rect:
  "(n, c) \<in> set (columns (resample_H_first df)) \<Longrightarrow>
   length c = length (index (resample_H_first df))"
  by (auto simp: resample_H_first_def Let_def)

lemma hourly_rows_rect:
  assumes "(n, c) \<in> set (columns (hourly_rows df))"
  shows "length c = length (index (hourly_rows df))"
proof -
  obtain c' where c': "(n, c') \<in> set (columns (resample_H_first df))"
    and c: "c = take_mask (map (\<lambda>i. list_all (\<lambda>(n, c). \<not> isnan (c ! i)) (columns (resample_H_first df)))
          [0..<length (index (resample_H_first df))]) c'"
    using assms by (auto simp: hourly_rows_def dropna_def getitem_mask_def)
  show ?thesis
    unfolding c hourly_rows_def dropna_def getitem_mask_def
    using length_take_mask [OF resample_H_first_rect [OF c']] by simp
qed

lemma average_price_empty: "average_price amount 0 [] = NaN"
  by (simp add: average_price_def series_sum_def)

lemma take_mask_none: "\<forall>t\<in>set ts. \<not> P t \<Longrightarrow> take_mask (map P ts) xs = []"
  by (simp add: take_mask_filter filter_empty_conv) (auto dest: set_zip_leftD)

lemma frame_average_no_match:
  assumes "\<forall>t\<in>set (index df). \<not> P t"
  shows "frame_average amount (getitem_mask df (map P (index df))) = NaN"
proof -
  have "index (getitem_mask df (map P (index df))) = []"
    using assms by (simp add: getitem_mask_def take_mask_none)
  moreover have "open_prices (getitem_mask df (map P (index df))) = []"
    using assms by (simp add: open_prices_def getitem_getitem_mask take_mask_none split: sum.splits)
  ultimately show ?thesis by (simp add: frame_average_def average_price_empty)
qed

lemma hourly_rows_no_row:
  assumes i: "index (hourly_rows df) = []"
  shows "frame_average amount (hourly_rows df) = NaN"
proof -
  have "open_prices (hourly_rows df) = []"
  proof (cases "getitem (hourly_rows df) ''Open''")
    case (Inl a)
    then show ?thesis by (simp add: open_prices_def)
  next
    case (Inr c)
    then have "length c = 0" using hourly_rows_rect [OF getitem_in_columns [OF Inr]] i by simp
    then show ?thesis using Inr by (simp add: open_prices_def)
  qed
  then show ?thesis using i by (simp add: frame_average_def average_price_empty)
qed

lemma index_hourly_rows_empty: "index df = [] \<Longrightarrow> index (hourly_rows df) = []"
  by (simp add: hourly_rows_def dropna_def resample_H_first_def hour_bins_def getitem_mask_def
      take_mask_def)

lemma hourly_rows_empty: "index df = [] \<Longrightarrow> frame_average amount (hourly_rows df) = NaN"
  by (rule hourly_rows_no_row [OF index_hourly_rows_empty])

section \<open>The hourly selection\<close>

lemma hourly_average_price:
  assumes opn: "getitem (hourly_rows df) ''Open'' = Inr (map Fin ps)"
    and pos: "0 < a" "ps \<noteq> []" "\<forall>p\<in>set ps. 0 < p"
  shows "average_price (Fin a) (length (index (hourly_rows df))) (map Fin ps) =
           Fin (real (length ps) / (\<Sum>p\<leftarrow>ps. 1 / p))"
proof -
  have "length (index (hourly_rows df)) = length ps"
    using hourly_rows_rect [OF getitem_in_columns [OF opn]] by simp
  then show ?thesis using average_price_closed_form [OF pos] by simp
qed

lemma hourly_rows_fixture_3_hours: "dropna (resample_H_first fixture_3_hours) = fixture_3_hours"
  by (simp add: fixture_3_hours_def resample_H_first_def hour_bins_def hour_floor_def
      ns_per_hour_def Let_def dropna_def getitem_mask_def take_mask_def first_valid_def isnan_def
      upt_rec)

section \<open>Sorting by price\<close>

lemma fle_total: "x \<noteq> NaN \<Longrightarrow> y \<noteq> NaN \<Longrightarrow> fle x y \<or> fle y x"
  by (cases x; cases y) auto

lemma fle_trans: "fle x y \<Longrightarrow> fle y z \<Longrightarrow> fle x z"
  by (cases x; cases y; cases z) auto

lemma fle_antisym: "fle x y \<Longrightarrow> fle y x \<Longrightarrow> x = y"
  by (cases x; cases y) auto

lemma fle_not_nan: "fle x y \<Longrightarrow> x \<noteq> NaN \<and> y \<noteq> NaN"
  by (cases x; cases y) auto

lemma mset_insort_price: "mset (insort_price r xs) = add_mset r (mset xs)"
  by (induction xs) auto

lemma mset_foldr_insort_price: "mset (foldr insort_price xs []) = mset xs"
  by (induction xs) (auto simp: mset_insort_price)

lemma mset_sort_values: "mset (sort_values rs) = mset rs"
  by (simp add: sort_values_def mset_foldr_insort_price isnan_def)

lemma set_sort_values: "set (sort_values rs) = set rs"
  using mset_sort_values [of rs] by (metis set_mset_mset)

lemma length_sort_values: "length (sort_values rs) = length rs"
  using mset_sort_values [of rs] by (metis size_mset)

lemma sorted_insort_price:
  assumes "sorted_wrt (\<lambda>a b. fle (Avg_Price a) (Avg_Price b)) xs"
    and "Avg_Price r \<noteq> NaN" and "\<forall>x\<in>set xs. Avg_Price x \<noteq> NaN"
  shows "sorted_wrt (\<lambda>a b. fle (Avg_Price a) (Avg_Price b)) (insort_price r xs)"
  using assms
proof (induction xs)
  case Nil
  then show ?case by simp
next
  case (Cons s ss)
  show ?case
  proof (cases "fle (Avg_Price r) (Avg_Price s)")
    case True
    then show ?thesis using Cons.prems by (auto intro: fle_trans)
  next
    case False
    then have sr: "fle (Avg_Price s) (Avg_Price r)"
      using fle_total [of "Avg_Price r" "Avg_Price s"] Cons.prems by auto
    have "set (insort_price r ss) = insert r (set ss)"
      using mset_insort_price [of r ss] by (metis set_mset_mset set_mset_add_mset_insert)
    then show ?thesis using False sr Cons by auto
  qed
qed

lemma sorted_foldr_insort_price:
  "\<forall>x\<in>set xs. Avg_Price x \<noteq> NaN \<Longrightarrow>
   sorted_wrt (\<lambda>a b. fle (Avg_Price a) (Avg_Price b)) (foldr insort_price xs [])"
proof (induction xs)
  case Nil
  then show ?case by simp
next
  case (Cons x xs)
  have "set (foldr insort_price xs []) = set xs"
    using mset_foldr_insort_price [of xs] by (metis set_mset_mset)
  then show ?case using Cons by (simp add: sorted_insort_price)
qed

lemma foldl_fmin_least:
  "\<forall>z\<in>set ys. fle y z \<Longrightarrow> foldl fmin y ys = y"
proof (induction ys)
  case Nil
  then show ?case by simp
next
  case (Cons z zs)
  have "fmin y z = y" using Cons.prems by (auto simp: fmin_def intro: fle_antisym)
  then show ?case using Cons by simp
qed

lemma sort_values_split:
  "\<exists>fin nans. sort_values rs = fin @ nans \<and>
     sorted_wrt (\<lambda>a b. fle (Avg_Price a) (Avg_Price b)) fin \<and>
     (\<forall>r\<in>set fin. Avg_Price r \<noteq> NaN) \<and> (\<forall>r\<in>set nans. Avg_Price r = NaN) \<and>
     mset fin = mset (filter (\<lambda>r. Avg_Price r \<noteq> NaN) rs)"
proof -
  let ?fin = "foldr insort_price (filter (\<lambda>r. \<not> isnan (Avg_Price r)) rs) []"
  let ?nans = "filter (\<lambda>r. isnan (Avg_Price r)) rs"
  have m: "mset ?fin = mset (filter (\<lambda>r. Avg_Price r \<noteq> NaN) rs)"
    by (simp add: mset_foldr_insort_price isnan_def)
  then have "set ?fin = set (filter (\<lambda>r. Avg_Price r \<noteq> NaN) rs)"
    by (metis set_mset_mset)
  then have "\<forall>r\<in>set ?fin. Avg_Price r \<noteq> NaN" by simp
  moreover have "sorted_wrt (\<lambda>a b. fle (Avg_Price a) (Avg_Price b)) ?fin"
    by (rule sorted_foldr_insort_price) (simp add: isnan_def)
  moreover have "\<forall>r\<in>set ?nans. Avg_Price r = NaN" by (simp add: isnan_def)
  ultimately show ?thesis using m unfolding sort_values_def by blast
qed

lemma series_min_split:
  assumes "sorted_wrt (\<lambda>a b. fle (Avg_Price a) (Avg_Price b)) fin"
    and "\<forall>r\<in>set fin. Avg_Price r \<noteq> NaN" and "\<forall>r\<in>set nans. Avg_Price r = NaN"
  shows "series_min (map Avg_Price (fin @ nans)) = (case fin of [] \<Rightarrow> NaN | r # _ \<Rightarrow> Avg_Price r)"
proof -
  have f: "filter (\<lambda>x. \<not> isnan x) (map Avg_Price (fin @ nans)) = map Avg_Price fin"
    using assms(2,3) by (simp add: isnan_def filter_map o_def filter_id_conv filter_empty_conv)
  show ?thesis
  proof (cases fin)
    case Nil
    then show ?thesis using f by (simp add: series_min_def)
  next
    case (Cons r rest)
    then have "\<forall>z\<in>set (map Avg_Price rest). fle (Avg_Price r) z"
      using assms(1) by auto
    then have "foldl fmin (Avg_Price r) (map Avg_Price rest) = Avg_Price r"
      by (rule foldl_fmin_least)
    then show ?thesis using f Cons by (simp add: series_min_def)
  qed
qed

section \<open>Prices of a selection\<close>

lemma first_valid_in: "first_valid ys = NaN \<or> first_valid ys \<in> set ys"
proof (cases "filter (\<lambda>x. \<not> isnan x) ys")
  case Nil
  then show ?thesis by (simp add: first_valid_def)
next
  case (Cons x xs)
  have "x \<in> set (filter (\<lambda>x. \<not> isnan x) ys)" unfolding Cons by simp
  then have "x \<in> set ys" by simp
  then show ?thesis using Cons by (simp add: first_valid_def)
qed

lemma resample_H_first_values:
  assumes "getitem df name = Inr c" and "getitem (resample_H_first df) name = Inr c'"
  shows "set c' \<subseteq> insert NaN (set c)"
proof -
  have "map_of (columns df) name = Some c"
    using assms(1) by (simp add: getitem_def split: option.splits)
  then have c': "c' = map (\<lambda>b. first_valid
                             (map snd (filter (\<lambda>(t, v). hour_floor t = b)
                                         (sort_key fst (zip (index df) c)))))
                        (hour_bins (index df))"
    using assms(2) by (simp add: getitem_def resample_H_first_def Let_def map_of_map split: option.splits)
  show ?thesis
  proof
    fix x assume "x \<in> set c'"
    then obtain b where x: "x = first_valid (map snd (filter (\<lambda>(t, v). hour_floor t = b)
                                         (sort_key fst (zip (index df) c))))"
      unfolding c' by auto
    have "set (map snd (filter (\<lambda>(t, v). hour_floor t = b) (sort_key fst (zip (index df) c)))) \<subseteq> set c"
      by (auto dest: set_zip_rightD)
    then show "x \<in> insert NaN (set c)"
      using first_valid_in [of "map snd (filter (\<lambda>(t, v). hour_floor t = b)
                                         (sort_key fst (zip (index df) c)))"] x by auto
  qed
qed

lemma take_mask_nth:
  assumes "x \<in> set (take_mask keep xs)"
  shows "\<exists>i. i < length keep \<and> i < length xs \<and> keep ! i \<and> xs ! i = x"
proof -
  have "(True, x) \<in> set (zip keep xs)"
    using assms by (auto simp: take_mask_def)
  then show ?thesis by (auto simp: in_set_zip)
qed

lemma dropna_values:
  assumes "getitem df name = Inr c" and "getitem (dropna df) name = Inr c'"
  shows "set c' \<subseteq> set c - {NaN}"
proof
  fix x assume x: "x \<in> set c'"
  let ?keep = "map (\<lambda>i. list_all (\<lambda>(n, c). \<not> isnan (c ! i)) (columns df)) [0..<length (index df)]"
  have c': "c' = take_mask ?keep c"
    using assms by (simp add: dropna_def getitem_getitem_mask)
  then obtain i where i: "i < length ?keep" "i < length c" "?keep ! i" "c ! i = x"
    using take_mask_nth [of x ?keep c] x by blast
  have "(name, c) \<in> set (columns df)" by (rule getitem_in_columns [OF assms(1)])
  moreover have "list_all (\<lambda>(n, c). \<not> isnan (c ! i)) (columns df)"
    using i(1,3) by simp
  ultimately have "\<not> isnan (c ! i)" by (auto simp: list_all_iff)
  then show "x \<in> set c - {NaN}" using i by (auto simp: isnan_def)
qed

lemma hourly_rows_values:
  assumes "getitem df name = Inr c" and "getitem (hourly_rows df) name = Inr c'"
  shows "set c' \<subseteq> set c - {NaN}"
proof -
  obtain cr where cr: "getitem (resample_H_first df) name = Inr cr"
    using getitem_resample_H_first [OF assms(1)] by blast
  have "set c' \<subseteq> set cr - {NaN}"
    using dropna_values [OF cr] assms(2) by (simp add: hourly_rows_def)
  then show ?thesis using resample_H_first_values [OF assms(1) cr] by auto
qed

lemma Fin_list:
  assumes "\<forall>v\<in>set xs. \<exists>p. 0 < p \<and> v = Fin p"
  shows "\<exists>ps. xs = map Fin ps \<and> (\<forall>p\<in>set ps. 0 < p)"
  using assms
proof (induction xs)
  case Nil
  then show ?case by simp
next
  case (Cons v vs)
  then obtain ps where "vs = map Fin ps" "\<forall>p\<in>set ps. 0 < p" by auto
  moreover obtain p where "0 < p" "v = Fin p" using Cons.prems by auto
  ultimately have "v # vs = map Fin (p # ps) \<and> (\<forall>q\<in>set (p # ps). 0 < q)" by simp
  then show ?case by (intro exI [of _ "p # ps"])
qed

lemma frame_average_positive:
  assumes rect: "length (index sel) = length (open_prices sel)"
    and pos: "\<forall>v\<in>set (open_prices sel). \<exists>p. 0 < p \<and> v = Fin p" and a: "0 < a"
  shows "frame_average (Fin a) sel =
           (if index sel = [] then NaN
            else Fin (real (length (index sel)) /
                      (\<Sum>v\<leftarrow>open_prices sel. 1 / (case v of Fin p \<Rightarrow> p | _ \<Rightarrow> 0))))"
    and "index sel \<noteq> [] \<Longrightarrow>
           0 < real (length (index sel)) /
                      (\<Sum>v\<leftarrow>open_prices sel. 1 / (case v of Fin p \<Rightarrow> p | _ \<Rightarrow> 0))"
proof -
  obtain ps where ps: "open_prices sel = map Fin ps" "\<forall>p\<in>set ps. 0 < p"
    using Fin_list [OF pos] by blast
  have len: "length (index sel) = length ps" using rect ps by simp
  have sum: "(\<Sum>v\<leftarrow>open_prices sel. 1 / (case v of Fin p \<Rightarrow> p | _ \<Rightarrow> 0)) = (\<Sum>p\<leftarrow>ps. 1 / p)"
    by (simp add: ps o_def)
  show "frame_average (Fin a) sel =
           (if index sel = [] then NaN
            else Fin (real (length (index sel)) /
                      (\<Sum>v\<leftarrow>open_prices sel. 1 / (case v of Fin p \<Rightarrow> p | _ \<Rightarrow> 0))))"
  proof (cases "ps = []")
    case True
    then show ?thesis using len ps by (simp add: frame_average_def average_price_empty)
  next
    case False
    then show ?thesis
      using average_price_closed_form [OF a False ps(2)] len sum
      by (auto simp add: frame_average_def ps)
  qed
  show "0 < real (length (index sel)) /
                      (\<Sum>v\<leftarrow>open_prices sel. 1 / (case v of Fin p \<Rightarrow> p | _ \<Rightarrow> 0))"
    if "index sel \<noteq> []"
  proof -
    have "ps \<noteq> []" using that len by auto
    then have "0 < (\<Sum>p\<leftarrow>ps. 1 / p)" using ps(2) by (intro sum_list_pos_real) auto
    then show ?thesis using that sum by simp
  qed
qed

section \<open>The entries of the results\<close>

lemma take_mask_self: "take_mask (map P xs) xs = filter P xs"
  by (induction xs) (auto simp: take_mask_def)

lemma set_take_mask: "set (take_mask keep xs) \<subseteq> set xs"
  by (auto simp: take_mask_def dest: set_zip_rightD)

lemma index_getitem_mask: "index (getitem_mask df (map P (index df))) = filter P (index df)"
  by (simp add: getitem_mask_def take_mask_self)

lemma selection_prices:
  assumes opn: "getitem df ''Open'' = Inr opn" and len: "length opn = length (index df)"
  shows "length (index (getitem_mask df (map P (index df)))) =
           length (open_prices (getitem_mask df (map P (index df))))"
    and "set (open_prices (getitem_mask df (map P (index df)))) \<subseteq> set opn"
proof -
  have o: "open_prices (getitem_mask df (map P (index df))) = take_mask (map P (index df)) opn"
    by (simp add: open_prices_def getitem_getitem_mask opn)
  show "length (index (getitem_mask df (map P (index df)))) =
           length (open_prices (getitem_mask df (map P (index df))))"
    unfolding o using length_take_mask [OF len, of "map P (index df)"]
    by (simp add: getitem_mask_def)
  show "set (open_prices (getitem_mask df (map P (index df)))) \<subseteq> set opn"
    unfolding o by (rule set_take_mask)
qed

lemma hourly_prices:
  assumes opn: "getitem df ''Open'' = Inr opn"
  shows "length (index (hourly_rows df)) = length (open_prices (hourly_rows df))"
    and "set (open_prices (hourly_rows df)) \<subseteq> set opn"
proof -
  obtain c where c: "getitem (hourly_rows df) ''Open'' = Inr c"
    using getitem_hourly_rows [OF opn] by blast
  then have o: "open_prices (hourly_rows df) = c" by (simp add: open_prices_def)
  show "length (index (hourly_rows df)) = length (open_prices (hourly_rows df))"
    unfolding o using hourly_rows_rect [OF getitem_in_columns [OF c]] by simp
  show "set (open_prices (hourly_rows df)) \<subseteq> set opn"
    unfolding o using hourly_rows_values [OF opn c] by auto
qed

lemma set_all_results:
  "set (all_results df) =
     {\<lparr>Strategy = weekly_label day hour,
       Avg_Price = frame_average (Fin 100) (weekly_rows df (int day) (int hour))\<rparr> | day hour.
       day < 7 \<and> hour < 24} \<union>
     {\<lparr>Strategy = daily_label hour,
       Avg_Price = frame_average (Fin 100) (daily_rows df (int hour))\<rparr> | hour. hour < 24} \<union>
     {\<lparr>Strategy = ''Hourly'', Avg_Price = frame_average (Fin 100) (hourly_rows df)\<rparr>}"
  unfolding all_results_def by (simp only: set_append set_concat set_map set_upt) auto

lemma length_all_results: "length (all_results df) = 193"
  unfolding all_results_def by (simp add: length_concat o_def sum_list_triv)

lemma all_results_positive:
  assumes opn: "getitem df ''Open'' = Inr opn" and len: "length opn = length (index df)"
    and pos: "\<forall>v\<in>set opn. \<exists>p. 0 < p \<and> v = Fin p"
    and r: "r \<in> set (all_results df)"
  shows "Avg_Price r = NaN \<or> (\<exists>x. 0 < x \<and> Avg_Price r = Fin x)"
proof -
  have sel: "frame_average (Fin 100) sel = NaN \<or> (\<exists>x. 0 < x \<and> frame_average (Fin 100) sel = Fin x)"
    if "length (index sel) = length (open_prices sel)" and "set (open_prices sel) \<subseteq> set opn"
    for sel
  proof -
    have p: "\<forall>v\<in>set (open_prices sel). \<exists>p. 0 < p \<and> v = Fin p" using that(2) pos by auto
    show ?thesis
      using frame_average_positive [OF that(1) p, of 100] by (cases "index sel = []") auto
  qed
  from r consider day hour where "Avg_Price r = frame_average (Fin 100) (weekly_rows df (int day) (int hour))"
    | hour where "Avg_Price r = frame_average (Fin 100) (daily_rows df (int hour))"
    | "Avg_Price r = frame_average (Fin 100) (hourly_rows df)"
    unfolding set_all_results by auto
  then show ?thesis
  proof cases
    case 1
    then show ?thesis
      unfolding weekly_rows_def using sel [OF selection_prices [OF opn len]] by simp
  next
    case 2
    then show ?thesis
      unfolding daily_rows_def using sel [OF selection_prices [OF opn len]] by simp
  next
    case 3
    then show ?thesis using sel [OF hourly_prices [OF opn]] by simp
  qed
qed

lemma hour_of_range: "0 \<le> hour_of t \<and> hour_of t < 24"
  by (simp add: hour_of_def)

lemma all_results_some_price:
  assumes opn: "getitem df ''Open'' = Inr opn" and len: "length opn = length (index df)"
    and pos: "\<forall>v\<in>set opn. \<exists>p. 0 < p \<and> v = Fin p"
    and ne: "index df \<noteq> []"
  shows "\<exists>r\<in>set (all_results df). Avg_Price r \<noteq> NaN"
proof -
  obtain t where t: "t \<in> set (index df)" using ne by (cases "index df") auto
  define hour where "hour = nat (hour_of t)"
  have hour: "hour < 24" "int hour = hour_of t"
    using hour_of_range [of t] by (auto simp: hour_def)
  let ?sel = "daily_rows df (int hour)"
  have "t \<in> set (index ?sel)"
    using t hour by (simp add: daily_rows_def index_getitem_mask)
  then have i: "index ?sel \<noteq> []" by auto
  have p: "\<forall>v\<in>set (open_prices ?sel). \<exists>p. 0 < p \<and> v = Fin p"
    unfolding daily_rows_def using selection_prices(2) [OF opn len] pos by blast
  have "length (index ?sel) = length (open_prices ?sel)"
    unfolding daily_rows_def by (rule selection_prices(1) [OF opn len])
  then have "frame_average (Fin 100) ?sel \<noteq> NaN"
    using frame_average_positive(1) [OF _ p, of 100] i by simp
  moreover have "\<lparr>Strategy = daily_label hour, Avg_Price = frame_average (Fin 100) ?sel\<rparr>
                   \<in> set (all_results df)"
    unfolding set_all_results using hour(1) by blast
  ultimately show ?thesis by force
qed

section \<open>The ranked table\<close>

lemma compare_strategies_table:
  assumes "d < length h" and "getitem (h ! d) ''Open'' = Inr opn"
  shows "fst (compare_strategies d h) = Inr (ranked_table (h ! d))"
  using reads_only_compare_strategies [OF assms(2), of d] assms(1)
  by (auto simp: reads_only_def)

lemma ranked_table_split:
  "\<exists>fin nans.
     ranked_table df =
       set_relative_deviation (case fin of [] \<Rightarrow> NaN | r # _ \<Rightarrow> Avg_Price r) (fin @ nans) \<and>
     sorted_wrt (\<lambda>a b. fle (Avg_Price a) (Avg_Price b)) fin \<and>
     (\<forall>r\<in>set fin. Avg_Price r \<noteq> NaN) \<and> (\<forall>r\<in>set nans. Avg_Price r = NaN) \<and>
     set (fin @ nans) = set (all_results df)"
proof -
  obtain fin nans where s: "sort_values (all_results df) = fin @ nans"
    "sorted_wrt (\<lambda>a b. fle (Avg_Price a) (Avg_Price b)) fin"
    "\<forall>r\<in>set fin. Avg_Price r \<noteq> NaN" "\<forall>r\<in>set nans. Avg_Price r = NaN"
    using sort_values_split [of "all_results df"] by blast
  have "set (fin @ nans) = set (all_results df)"
    using set_sort_values [of "all_results df"] s(1) by simp
  moreover have "ranked_table df =
       set_relative_deviation (case fin of [] \<Rightarrow> NaN | r # _ \<Rightarrow> Avg_Price r) (fin @ nans)"
    unfolding ranked_table_def s(1) series_min_split [OF s(2,3,4)] by (rule refl)
  ultimately show ?thesis using s(2,3,4) by blast
qed

lemma relative_deviation_self:
  "relative_deviation m m = (case m of Fin x \<Rightarrow> if x = 0 then NaN else Fin 0 | _ \<Rightarrow> NaN)"
  by (cases m) (simp_all add: relative_deviation_def fsub_def)

lemma relative_deviation_Fin:
  "m \<noteq> 0 \<Longrightarrow> relative_deviation (Fin m) (Fin x) = Fin ((x - m) / m * 100)"
  by (simp add: relative_deviation_def fsub_def)

lemma relative_deviation_NaN: "relative_deviation m NaN = NaN"
  by (cases m) (simp_all add: relative_deviation_def fsub_def)

lemma length_ranked_table: "length (ranked_table df) = 193"
  by (simp add: ranked_table_def set_relative_deviation_def length_sort_values length_all_results)

lemma main_table:
  assumes "data < length h" and "loc_slice (h ! data) start_date end_date = Inr sliced"
    and "getitem sliced ''Open'' = Inr opn"
  shows "fst (main data start_date end_date h) =
           Inr (ranked_table sliced, visualize_bar_chart (ranked_table sliced),
                visualize_filtered_bar_chart (ranked_table sliced))"
proof -
  have "length h < length (h @ [sliced]) \<and> (h @ [sliced]) ! length h = sliced" by simp
  then obtain ext where "compare_strategies (length h) (h @ [sliced]) =
       (Inr (ranked_table sliced), (h @ [sliced]) @ ext)"
    using reads_only_compare_strategies [OF assms(3), of "length h"]
    unfolding reads_only_def by blast
  then show ?thesis
    using assms(2) by (simp add: main_def pbind_def load_def lift_def alloc_def preturn_def)
qed

lemma relative_deviation_best_NaN: "relative_deviation NaN x = NaN"
  by (cases x) (simp_all add: relative_deviation_def fsub_def)

lemma all_results_no_rows:
  assumes "index df = []" and "r \<in> set (all_results df)"
  shows "Avg_Price r = NaN"
proof -
  have "frame_average (Fin 100) (getitem_mask df (map P (index df))) = NaN" for P
    by (rule frame_average_no_match) (simp add: assms(1))
  then show ?thesis
    using assms(2) hourly_rows_empty [OF assms(1)]
    unfolding set_all_results weekly_rows_def daily_rows_def by auto
qed

lemma ranked_table_no_rows:
  assumes "index df = []"
  shows "ranked_table df =
           map (\<lambda>r. \<lparr>Strategy = Strategy r, Avg_Price = NaN, Relative_Deviation = NaN\<rparr>)
             (sort_values (all_results df))"
proof -
  have n: "\<forall>r\<in>set (sort_values (all_results df)). Avg_Price r = NaN"
    using all_results_no_rows [OF assms] by (simp add: set_sort_values)
  then have "filter (\<lambda>x. \<not> isnan x) (map Avg_Price (sort_values (all_results df))) = []"
    by (simp add: filter_empty_conv isnan_def)
  then have "series_min (map Avg_Price (sort_values (all_results df))) = NaN"
    by (simp add: series_min_def)
  then show ?thesis
    using n by (simp add: ranked_table_def set_relative_deviation_def relative_deviation_best_NaN)
qed

lemma hd_ranked_table_no_rows:
  assumes "index df = []"
  shows "Avg_Price (hd (ranked_table df)) = NaN" and "Relative_Deviation (hd (ranked_table df)) = NaN"
    and "series_min (map Avg_Price (ranked_table df)) = NaN"
proof -
  have "length (sort_values (all_results df)) = 193"
    by (simp add: length_sort_values length_all_results)
  then have "sort_values (all_results df) \<noteq> []" by auto
  then show "Avg_Price (hd (ranked_table df)) = NaN"
    and "Relative_Deviation (hd (ranked_table df)) = NaN"
    unfolding ranked_table_no_rows [OF assms] by (simp_all add: hd_map)
  have "filter (\<lambda>x. \<not> isnan x) (map Avg_Price (ranked_table df)) = []"
    unfolding ranked_table_no_rows [OF assms] by (simp add: filter_empty_conv isnan_def)
  then show "series_min (map Avg_Price (ranked_table df)) = NaN"
    by (simp add: series_min_def)
qed

lemma loc_slice_fixture_gap:
  "loc_slice fixture_gap (3 * ns_per_day) (4 * ns_per_day) =
     Inr \<lparr>index = [], columns = [(''Open'', [])]\<rparr>"
  by (simp add: loc_slice_def get_slice_bound_def iloc_slice_def fixture_gap_def ns_per_day_def
      ns_per_hour_def)

section \<open>The first row\<close>

lemma sorted_wrt_first:
  assumes "sorted_wrt (\<lambda>a b. fle (Avg_Price a) (Avg_Price b)) (a # as)"
    and "s \<in> set (a # as)" and "Avg_Price a \<noteq> NaN"
  shows "fle (Avg_Price a) (Avg_Price s)"
proof (cases "s = a")
  case True
  then show ?thesis using assms(3) fle_total [of "Avg_Price a" "Avg_Price a"] by auto
next
  case False
  then show ?thesis using assms(1,2) by auto
qed

section \<open>The rows of the filtered chart\<close>

lemma startswith_weekly_label: "startswith (weekly_label day hour) ''Weekly''"
  by (simp add: startswith_def weekly_label_def)

lemma startswith_daily_label: "\<not> startswith (daily_label hour) ''Weekly''"
  by (simp add: startswith_def daily_label_def)

lemma startswith_Hourly: "\<not> startswith ''Hourly'' ''Weekly''"
  by (simp add: startswith_def)

lemma filter_all_results:
  "filter (\<lambda>r. \<not> startswith (Strategy r) ''Weekly'') (all_results df) =
     map (\<lambda>hour. \<lparr>Strategy = daily_label hour,
                     Avg_Price = frame_average (Fin 100) (daily_rows df (int hour))\<rparr>) [0..<24]
     @ [\<lparr>Strategy = ''Hourly'', Avg_Price = frame_average (Fin 100) (hourly_rows df)\<rparr>]"
  unfolding all_results_def
  by (simp add: filter_concat filter_map o_def startswith_weekly_label startswith_daily_label
      startswith_Hourly)

lemma length_filter_sort_values:
  "length (filter Q (sort_values rs)) = length (filter Q rs)"
proof -
  have "mset (filter Q (sort_values rs)) = mset (filter Q rs)"
    by (simp add: mset_sort_values)
  then show ?thesis by (metis size_mset)
qed

lemma filter_set_relative_deviation:
  "filter (\<lambda>r. \<not> startswith (Strategy r) ''Weekly'') (set_relative_deviation m rs) =
     set_relative_deviation m (filter (\<lambda>r. \<not> startswith (Strategy r) ''Weekly'') rs)"
  by (simp add: set_relative_deviation_def filter_map o_def)

lemma length_set_relative_deviation: "length (set_relative_deviation m rs) = length rs"
  by (simp add: set_relative_deviation_def)

lemma set_relative_deviation_twice:
  "set_relative_deviation m (set_relative_deviation m' rs) = set_relative_deviation m rs"
  by (simp add: set_relative_deviation_def o_def)

section \<open>The labels\<close>

lemma str_nat_one_digit: "hour < 10 \<Longrightarrow> str_nat hour = [''0123456789'' ! hour]"
  by (simp add: str_nat.simps)

lemma str_nat_two_digits:
  assumes "10 \<le> hour" and "hour < 100"
  shows "str_nat hour = [''0123456789'' ! (hour div 10), ''0123456789'' ! (hour mod 10)]"
proof -
  have "hour div 10 < 10" using assms(2) by simp
  then show ?thesis using assms(1) by (simp add: str_nat.simps [of hour] str_nat_one_digit)
qed

lemma labels_ranked_table: "Strategy ` set (ranked_table df) = Strategy ` set (all_results df)"
proof -
  have "map Strategy (ranked_table df) = map Strategy (sort_values (all_results df))"
    by (simp add: ranked_table_def set_relative_deviation_def o_def)
  then have "set (map Strategy (ranked_table df)) = set (map Strategy (sort_values (all_results df)))"
    by simp
  then show ?thesis by (simp add: set_sort_values)
qed

lemma str_nat_not_HH_00: "hour < 10 \<Longrightarrow> str_nat hour @ '':00'' \<noteq> HH_00 hour"
  by (simp add: str_nat_one_digit HH_00_def)

lemma str_nat_HH_00: "10 \<le> hour \<Longrightarrow> hour < 24 \<Longrightarrow> str_nat hour @ '':00'' = HH_00 hour"
  by (simp add: str_nat_two_digits HH_00_def)

section \<open>Slices\<close>

lemma take_mask_Cons:
  "take_mask (k # ks) (x # xs) = (if k then x # take_mask ks xs else take_mask ks xs)"
  by (simp add: take_mask_def)

lemma take_mask_position:
  "i < length keep \<Longrightarrow> i < length xs \<Longrightarrow> keep ! i \<Longrightarrow>
   length (filter (\<lambda>b. b) (take i keep)) < length (take_mask keep xs) \<and>
   take_mask keep xs ! length (filter (\<lambda>b. b) (take i keep)) = xs ! i"
proof (induction keep arbitrary: xs i)
  case Nil
  then show ?case by simp
next
  case (Cons k ks)
  obtain x xs' where xs: "xs = x # xs'" using Cons.prems(2) by (cases xs) auto
  show ?case
  proof (cases i)
    case 0
    then show ?thesis using Cons.prems xs by (simp add: take_mask_Cons)
  next
    case (Suc i')
    then have "length (filter (\<lambda>b. b) (take i' ks)) < length (take_mask ks xs') \<and>
      take_mask ks xs' ! length (filter (\<lambda>b. b) (take i' ks)) = xs' ! i'"
      using Cons.IH [of i' xs'] Cons.prems xs by simp
    then show ?thesis using Suc xs by (simp add: take_mask_Cons)
  qed
qed

lemma getitem_mask_row:
  assumes rect: "rectangular df" and i: "i < length (index df)" and keep: "P (index df ! i)"
  shows "\<exists>j<length (index (getitem_mask df (map P (index df)))).
           row (getitem_mask df (map P (index df))) j = row df i"
proof -
  let ?keep = "map P (index df)"
  let ?j = "length (filter (\<lambda>b. b) (take i ?keep))"
  have k: "i < length ?keep" "?keep ! i" using i keep by simp_all
  have pos: "?j < length (take_mask ?keep xs) \<and> take_mask ?keep xs ! ?j = xs ! i"
    if "length xs = length (index df)" for xs :: "'a list"
    using take_mask_position [OF k(1) _ k(2), of xs] that i by simp
  have "map (\<lambda>(n, c). (n, c ! ?j)) (map (\<lambda>(n, c). (n, take_mask ?keep c)) (columns df)) =
        map (\<lambda>(n, c). (n, c ! i)) (columns df)"
    using rect pos by (auto simp: rectangular_def list_all_iff)
  then have "row (getitem_mask df ?keep) ?j = row df i"
    using pos [of "index df"] by (simp add: row_def getitem_mask_def)
  moreover have "?j < length (index (getitem_mask df ?keep))"
    using pos [of "index df"] by (simp add: getitem_mask_def)
  ultimately show ?thesis by blast
qed

lemma sorted_takeWhile_neq:
  fixes xs :: "int list"
  shows "sorted xs \<Longrightarrow> v \<in> set xs \<Longrightarrow> takeWhile (\<lambda>t. t \<noteq> v) xs = filter (\<lambda>t. t < v) xs"
  by (induction xs) (auto simp: empty_filter_conv)

lemma sorted_takeWhile_neq_rev:
  fixes xs :: "int list"
  shows "sorted xs \<Longrightarrow> v \<in> set xs \<Longrightarrow>
    length (takeWhile (\<lambda>t. t \<noteq> v) (rev xs)) = length (filter (\<lambda>t. v < t) xs)"
  by (induction xs rule: rev_induct) (auto simp: filter_empty_conv empty_filter_conv sorted_append)

lemma sorted_three_way:
  fixes xs :: "int list"
  shows "sorted xs \<Longrightarrow>
    xs = filter (\<lambda>t. t < v) xs @ filter (\<lambda>t. t = v) xs @ filter (\<lambda>t. v < t) xs"
proof (induction xs)
  case Nil
  then show ?case by simp
next
  case (Cons x xs)
  have ih: "xs = filter (\<lambda>t. t < v) xs @ filter (\<lambda>t. t = v) xs @ filter (\<lambda>t. v < t) xs"
    using Cons by simp
  have ge: "\<forall>t\<in>set xs. x \<le> t" using Cons.prems by simp
  consider "x < v" | "x = v" | "v < x" by (rule linorder_cases)
  then show ?case
  proof cases
    case 1
    then show ?thesis using ih by auto
  next
    case 2
    then have "filter (\<lambda>t. t < v) xs = []" using ge by (auto simp: filter_empty_conv)
    then show ?thesis using 2 ih by simp
  next
    case 3
    then have "filter (\<lambda>t. t < v) xs = []" "filter (\<lambda>t. t = v) xs = []"
      using ge by (auto simp: filter_empty_conv)
    then show ?thesis using 3 ih by simp
  qed
qed

lemma length_three_way:
  fixes xs :: "int list"
  shows "length xs = length (filter (\<lambda>t. t < v) xs) + length (filter (\<lambda>t. t = v) xs) +
     length (filter (\<lambda>t. v < t) xs)"
proof (induction xs)
  case Nil
  then show ?case by simp
next
  case (Cons x xs)
  consider "x < v" | "x = v" | "v < x" by (rule linorder_cases)
  then show ?case using Cons by cases simp_all
qed

lemma length_filter_le:
  fixes xs :: "int list"
  shows "length (filter (\<lambda>t. t \<le> v) xs) =
     length (filter (\<lambda>t. t < v) xs) + length (filter (\<lambda>t. t = v) xs)"
proof (induction xs)
  case Nil
  then show ?case by simp
next
  case (Cons x xs)
  consider "x < v" | "x = v" | "v < x" by (rule linorder_cases)
  then show ?case using Cons by cases simp_all
qed

lemma get_slice_bound_sorted:
  assumes "sorted idx"
  shows "get_slice_bound idx v LeftSide = Inr (length (filter (\<lambda>t. t < v) idx))"
    and "get_slice_bound idx v RightSide = Inr (length (filter (\<lambda>t. t \<le> v) idx))"
proof -
  let ?l = "length (filter (\<lambda>t. t < v) idx)"
  let ?m = "length (filter (\<lambda>t. t = v) idx)"
  let ?g = "length (filter (\<lambda>t. v < t) idx)"
  have len: "length idx = ?l + ?m + ?g" by (rule length_three_way)
  have le: "length (filter (\<lambda>t. t \<le> v) idx) = ?l + ?m" by (rule length_filter_le)
  have seg: "take (?l + ?m - ?l) (drop ?l idx) = filter (\<lambda>t. t = v) idx"
  proof -
    have "drop ?l idx = drop ?l (filter (\<lambda>t. t < v) idx @ filter (\<lambda>t. t = v) idx @ filter (\<lambda>t. v < t) idx)"
      using sorted_three_way [OF assms, of v] by simp
    then have "drop ?l idx = filter (\<lambda>t. t = v) idx @ filter (\<lambda>t. v < t) idx" by simp
    then show ?thesis by simp
  qed
  have all: "list_all (\<lambda>t. t = v) (take (?l + ?m - ?l) (drop ?l idx))"
    unfolding seg by (simp add: list_all_iff)
  have start: "length (takeWhile (\<lambda>t. t \<noteq> v) idx) = ?l" if "v \<in> set idx"
    using sorted_takeWhile_neq [OF assms that] by simp
  have stop: "length idx - length (takeWhile (\<lambda>t. t \<noteq> v) (rev idx)) = ?l + ?m" if "v \<in> set idx"
    using sorted_takeWhile_neq_rev [OF assms that] len by simp
  show "get_slice_bound idx v LeftSide = Inr ?l"
    using assms start stop all by (simp add: get_slice_bound_def Let_def)
  show "get_slice_bound idx v RightSide = Inr (length (filter (\<lambda>t. t \<le> v) idx))"
    using assms start stop all le by (simp add: get_slice_bound_def Let_def)
qed

lemma take_mask_Nil2: "take_mask keep [] = []"
  by (simp add: take_mask_def)

lemma take_mask_sorted_range:
  fixes xs :: "int list"
  assumes "sorted xs" and "s \<le> e"
  shows "take_mask (map (\<lambda>t. s \<le> t \<and> t \<le> e) xs) c =
     take (length (filter (\<lambda>t. t \<le> e) xs) - length (filter (\<lambda>t. t < s) xs))
       (drop (length (filter (\<lambda>t. t < s) xs)) c)"
  using assms(1)
proof (induction xs arbitrary: c)
  case Nil
  then show ?case by (simp add: take_mask_def)
next
  case (Cons x xs)
  show ?case
  proof (cases c)
    case Nil
    then show ?thesis by (simp add: take_mask_Nil2)
  next
    case (Cons y ys)
    have ih: "take_mask (map (\<lambda>t. s \<le> t \<and> t \<le> e) xs) ys =
     take (length (filter (\<lambda>t. t \<le> e) xs) - length (filter (\<lambda>t. t < s) xs))
       (drop (length (filter (\<lambda>t. t < s) xs)) ys)"
      using Cons.IH Cons.prems by simp
    have ge: "\<forall>t\<in>set xs. x \<le> t" using Cons.prems by simp
    consider "x < s" | "s \<le> x" "x \<le> e" | "e < x" by fastforce
    then show ?thesis
    proof cases
      case 1
      then have "\<not> s \<le> x" "x \<le> e" using assms(2) by auto
      then show ?thesis using 1 ih Cons by (simp add: take_mask_Cons)
    next
      case 2
      then have "filter (\<lambda>t. t < s) xs = []" using ge by (auto simp: filter_empty_conv)
      then show ?thesis using 2 ih Cons by (simp add: take_mask_Cons)
    next
      case 3
      then have "filter (\<lambda>t. t < s) xs = []" "filter (\<lambda>t. t \<le> e) xs = []"
        using ge assms(2) by (auto simp: filter_empty_conv)
      then show ?thesis using 3 ih Cons assms(2) by (simp add: take_mask_Cons)
    qed
  qed
qed

lemma loc_slice_sorted:
  assumes "sorted (index df)" and "s \<le> e"
  shows "loc_slice df s e = Inr (getitem_mask df (map (\<lambda>t. s \<le> t \<and> t \<le> e) (index df)))"
  using assms
  by (simp add: loc_slice_def get_slice_bound_sorted iloc_slice_def getitem_mask_def
      take_mask_sorted_range)

lemma date_range_ok_le: "date_range_ok df s e \<Longrightarrow> s \<le> e"
  by (auto simp: date_range_ok_def Let_def split: list.splits)

lemma main_runs_comparison:
  "fst (main data start_date end_date h) =
     (case loc_slice (h ! data) start_date end_date of
        Inl e \<Rightarrow> Inl e
      | Inr sliced \<Rightarrow>
          (case fst (compare_strategies (length h) (h @ [sliced])) of
             Inl e \<Rightarrow> Inl e
           | Inr results_df \<Rightarrow>
               Inr (results_df, visualize_bar_chart results_df,
                    visualize_filtered_bar_chart results_df)))"
  by (simp add: main_def pbind_def load_def lift_def alloc_def preturn_def
      split: sum.splits prod.splits)

section \<open>Tables with one price\<close>

lemma frame_average_constant:
  assumes rect: "length (index sel) = length (open_prices sel)"
    and const: "\<forall>v\<in>set (open_prices sel). v = Fin c" and c: "0 < c" and a: "0 < a"
  shows "frame_average (Fin a) sel = (if index sel = [] then NaN else Fin c)"
proof (cases "index sel = []")
  case True
  then show ?thesis using rect by (simp add: frame_average_def average_price_empty)
next
  case False
  let ?n = "length (index sel)"
  have n: "0 < ?n" using False by simp
  have o: "open_prices sel = map Fin (replicate ?n c)"
    using const rect by (simp add: map_replicate_const replicate_length_same)
  have ne: "replicate ?n c \<noteq> []" using n by simp
  have pos: "\<forall>p\<in>set (replicate ?n c). 0 < p" using c by simp
  have "(\<Sum>p\<leftarrow>replicate ?n c. 1 / p) = real ?n * (1 / c)"
    by (simp add: sum_list_replicate)
  then have "real (length (replicate ?n c)) / (\<Sum>p\<leftarrow>replicate ?n c. 1 / p) = c"
    using n c by simp
  then have "average_price (Fin a) ?n (map Fin (replicate ?n c)) = Fin c"
    using average_price_closed_form [OF a ne pos] by simp
  then show ?thesis using False o by (simp add: frame_average_def)
qed

lemma hour_of_shift: "hour_of (t0 + int k * ns_per_hour) = (t0 div ns_per_hour + int k) mod 24"
  by (simp add: hour_of_def ns_per_hour_def add.commute)

lemma every_hour_in_a_day:
  assumes "hour < 24"
  shows "\<exists>k<24. hour_of (t0 + int k * ns_per_hour) = int hour"
proof -
  define k where "k = nat ((int hour - t0 div ns_per_hour) mod 24)"
  have k: "int k = (int hour - t0 div ns_per_hour) mod 24" by (simp add: k_def)
  have "k < 24" by (simp add: k_def nat_less_iff)
  moreover have "(t0 div ns_per_hour + int k) mod 24 = int hour"
  proof -
    have "(t0 div ns_per_hour + int k) mod 24 = (t0 div ns_per_hour + (int hour - t0 div ns_per_hour)) mod 24"
      unfolding k by (simp add: mod_add_right_eq)
    then show ?thesis using assms by simp
  qed
  ultimately show ?thesis unfolding hour_of_shift by blast
qed

lemma fold_min_in: "fold min r (t::int) \<in> set (t # r)"
proof (induction r arbitrary: t)
  case Nil
  then show ?case by simp
next
  case (Cons a r)
  have "fold min r (min a t) \<in> set (min a t # r)" by (rule Cons.IH)
  moreover have "min a t = a \<or> min a t = t" by (simp add: min_def)
  ultimately show ?case by auto
qed

lemma first_valid_not_nan:
  assumes "ys \<noteq> []" and "NaN \<notin> set ys"
  shows "first_valid ys \<noteq> NaN"
proof -
  have "filter (\<lambda>x. \<not> isnan x) ys = ys" using assms(2) by (auto simp: isnan_def filter_id_conv)
  then show ?thesis using assms
    by (cases ys) (auto simp: first_valid_def)
qed

lemma hourly_rows_not_empty:
  assumes ne: "index df \<noteq> []" and rect: "rectangular df"
    and nonan: "\<forall>(n, c)\<in>set (columns df). NaN \<notin> set c"
  shows "index (hourly_rows df) \<noteq> []"
proof -
  obtain t r where tr: "index df = t # r" using ne by (cases "index df") auto
  define lo where "lo = hour_floor (fold min r t)"
  define hi where "hi = hour_floor (fold max r t)"
  define rest where "rest = map (\<lambda>k. lo + int k * ns_per_hour) [Suc 0..<Suc (nat ((hi - lo) div ns_per_hour))]"
  have bins: "hour_bins (index df) = lo # rest"
    by (simp add: hour_bins_def tr lo_def hi_def rest_def Let_def upt_conv_Cons del: upt_Suc)
  obtain tmin where tmin: "tmin \<in> set (index df)" "hour_floor tmin = lo"
    using fold_min_in [of r t] unfolding tr lo_def by blast
  let ?R = "resample_H_first df"
  have idx: "index ?R = lo # rest" by (simp add: resample_H_first_def bins Let_def)
  have col0: "c ! 0 \<noteq> NaN" if mem: "(n, c) \<in> set (columns ?R)" for n c
  proof -
    obtain c0 where c0: "(n, c0) \<in> set (columns df)"
      and c: "c = first_valid (map snd (filter (\<lambda>(t, v). hour_floor t = lo)
                                         (sort_key fst (zip (index df) c0)))) #
                  map (\<lambda>b. first_valid (map snd (filter (\<lambda>(t, v). hour_floor t = b)
                                         (sort_key fst (zip (index df) c0))))) rest"
      using mem by (auto simp: resample_H_first_def Let_def bins)
    have len: "length c0 = length (index df)"
      using rect c0 by (auto simp: rectangular_def list_all_iff)
    then obtain v where v: "(tmin, v) \<in> set (zip (index df) c0)"
      using tmin(1) by (metis in_set_impl_in_set_zip1)
    let ?ys = "map snd (filter (\<lambda>(t, v). hour_floor t = lo) (sort_key fst (zip (index df) c0)))"
    have "v \<in> set ?ys" using v tmin(2) by force
    then have "?ys \<noteq> []" by (metis empty_iff empty_set)
    moreover have "set ?ys \<subseteq> set c0" by (auto dest: set_zip_rightD)
    then have "NaN \<notin> set ?ys" using nonan c0 by auto
    ultimately have "first_valid ?ys \<noteq> NaN" by (rule first_valid_not_nan)
    then show ?thesis unfolding c by simp
  qed
  then have "list_all (\<lambda>(n, c). \<not> isnan (c ! 0)) (columns ?R)"
    by (auto simp: list_all_iff isnan_def)
  then have "index (dropna ?R) = lo # take_mask
      (map (\<lambda>i. list_all (\<lambda>(n, c). \<not> isnan (c ! i)) (columns ?R)) [Suc 0..<Suc (length rest)]) rest"
    by (simp add: dropna_def getitem_mask_def idx upt_conv_Cons take_mask_Cons del: upt_Suc)
  then show ?thesis by (simp add: hourly_rows_def)
qed

lemma selection_constant:
  assumes opn: "getitem df ''Open'' = Inr (replicate (length (index df)) (Fin 100))"
  shows "frame_average (Fin 100) (getitem_mask df (map P (index df))) =
           (if \<exists>t\<in>set (index df). P t then Fin 100 else NaN)"
proof -
  let ?sel = "getitem_mask df (map P (index df))"
  have len: "length (replicate (length (index df)) (Fin 100)) = length (index df)" by simp
  have "set (open_prices ?sel) \<subseteq> set (replicate (length (index df)) (Fin 100))"
    by (rule selection_prices(2) [OF opn len])
  then have const: "\<forall>v\<in>set (open_prices ?sel). v = Fin 100" by auto
  have "frame_average (Fin 100) ?sel = (if index ?sel = [] then NaN else Fin 100)"
    by (rule frame_average_constant [OF selection_prices(1) [OF opn len] const]) simp_all
  moreover have "index ?sel = [] \<longleftrightarrow> \<not> (\<exists>t\<in>set (index df). P t)"
    by (simp add: index_getitem_mask filter_empty_conv)
  ultimately show ?thesis by simp
qed

lemma hourly_constant:
  assumes opn: "getitem df ''Open'' = Inr (replicate (length (index df)) (Fin 100))"
  shows "frame_average (Fin 100) (hourly_rows df) =
           (if index (hourly_rows df) \<noteq> [] then Fin 100 else NaN)"
proof -
  have "set (open_prices (hourly_rows df)) \<subseteq> set (replicate (length (index df)) (Fin 100))"
    by (rule hourly_prices(2) [OF opn])
  then have const: "\<forall>v\<in>set (open_prices (hourly_rows df)). v = Fin 100" by auto
  have "frame_average (Fin 100) (hourly_rows df) =
          (if index (hourly_rows df) = [] then NaN else Fin 100)"
    by (rule frame_average_constant [OF hourly_prices(1) [OF opn] const]) simp_all
  then show ?thesis by simp
qed

lemma ranked_table_constant:
  assumes "\<forall>r\<in>set (all_results df). Avg_Price r = Fin c \<or> Avg_Price r = NaN" and "c \<noteq> 0"
  shows "ranked_table df =
           map (\<lambda>r. \<lparr>Strategy = Strategy r, Avg_Price = Avg_Price r,
                      Relative_Deviation = (if Avg_Price r = NaN then NaN else Fin 0)\<rparr>)
             (sort_values (all_results df))"
proof -
  let ?S = "sort_values (all_results df)"
  obtain fin nans where s: "?S = fin @ nans"
    "sorted_wrt (\<lambda>a b. fle (Avg_Price a) (Avg_Price b)) fin"
    "\<forall>r\<in>set fin. Avg_Price r \<noteq> NaN" "\<forall>r\<in>set nans. Avg_Price r = NaN"
    using sort_values_split [of "all_results df"] by blast
  define m where "m = series_min (map Avg_Price ?S)"
  have m: "m = (case fin of [] \<Rightarrow> NaN | r # _ \<Rightarrow> Avg_Price r)"
    unfolding m_def s(1) by (rule series_min_split [OF s(2,3,4)])
  have all: "\<forall>r\<in>set ?S. Avg_Price r = Fin c \<or> Avg_Price r = NaN"
    using assms(1) by (simp add: set_sort_values)
  have "relative_deviation m (Avg_Price r) = (if Avg_Price r = NaN then NaN else Fin 0)"
    if r: "r \<in> set ?S" for r
  proof (cases "Avg_Price r = NaN")
    case True
    then show ?thesis by (simp add: relative_deviation_NaN)
  next
    case False
    then have rc: "Avg_Price r = Fin c" using all r by blast
    have "r \<in> set fin" using r False s(1,4) by auto
    then obtain a as where f: "fin = a # as" by (cases fin) auto
    then have "a \<in> set ?S" "Avg_Price a \<noteq> NaN" using s(1,3) by auto
    then have "Avg_Price a = Fin c" using all by blast
    then have "m = Fin c" using m f by simp
    then show ?thesis using rc assms(2) by (simp add: relative_deviation_Fin)
  qed
  then show ?thesis
    unfolding ranked_table_def set_relative_deviation_def m_def by (intro map_cong) simp_all
qed

section \<open>Tables with one price, ranked\<close>

lemma ranked_table_member:
  assumes "\<forall>r\<in>set (all_results df). Avg_Price r = Fin c \<or> Avg_Price r = NaN" and "c \<noteq> 0"
    and "\<lparr>Strategy = l, Avg_Price = (if b then Fin c else NaN)\<rparr> \<in> set (all_results df)"
  shows "\<lparr>Strategy = l, Avg_Price = (if b then Fin c else NaN),
           Relative_Deviation = (if b then Fin 0 else NaN)\<rparr> \<in> set (ranked_table df)"
proof -
  let ?g = "\<lambda>r. \<lparr>Strategy = Strategy r, Avg_Price = Avg_Price r,
                      Relative_Deviation = (if Avg_Price r = NaN then NaN else Fin 0)\<rparr>"
  have "?g \<lparr>Strategy = l, Avg_Price = (if b then Fin c else NaN)\<rparr> \<in> ?g ` set (all_results df)"
    using assms(3) by (rule imageI)
  moreover have "?g \<lparr>Strategy = l, Avg_Price = (if b then Fin c else NaN)\<rparr> =
      \<lparr>Strategy = l, Avg_Price = (if b then Fin c else NaN),
           Relative_Deviation = (if b then Fin 0 else NaN)\<rparr>"
    by simp
  ultimately have "\<lparr>Strategy = l, Avg_Price = (if b then Fin c else NaN),
           Relative_Deviation = (if b then Fin 0 else NaN)\<rparr> \<in> ?g ` set (all_results df)"
    by (simp only:)
  then show ?thesis
    unfolding ranked_table_constant [OF assms(1,2)] set_map set_sort_values .
qed

lemma getitem_fixture_48_hours:
  "getitem fixture_48_hours ''Open'' = Inr (replicate (length (index fixture_48_hours)) (Fin 100))"
  by (simp add: fixture_48_hours_def getitem_def)

lemma dayofweek_fixture_48_hours:
  assumes "k < 48"
  shows "dayofweek (int k * ns_per_hour) = 3 \<or> dayofweek (int k * ns_per_hour) = 4"
proof -
  have "int k * ns_per_hour div (24 * ns_per_hour) = int k div 24"
    by (rule div_mult_mult2) (simp add: ns_per_hour_def)
  moreover have "int k div 24 = 0 \<or> int k div 24 = 1" using assms by auto
  ultimately show ?thesis unfolding dayofweek_def ns_per_day_def by auto
qed

section \<open>The least price\<close>

lemma foldl_fmin_in_least:
  "\<forall>z\<in>set (y # ys). z \<noteq> NaN \<Longrightarrow>
   foldl fmin y ys \<in> set (y # ys) \<and> (\<forall>z\<in>set (y # ys). fle (foldl fmin y ys) z)"
proof (induction ys arbitrary: y)
  case Nil
  then show ?case using fle_total [of y y] by auto
next
  case (Cons z zs)
  have m: "fmin y z \<noteq> NaN" "fmin y z = y \<or> fmin y z = z"
    using Cons.prems by (auto simp: fmin_def)
  then have "\<forall>w\<in>set (fmin y z # zs). w \<noteq> NaN" using Cons.prems by auto
  then have ih: "foldl fmin (fmin y z) zs \<in> set (fmin y z # zs)"
    "\<forall>w\<in>set (fmin y z # zs). fle (foldl fmin (fmin y z) zs) w"
    using Cons.IH [of "fmin y z"] by auto
  have le: "fle (fmin y z) y" "fle (fmin y z) z"
    using Cons.prems fle_total [of y z] fle_total [of y y] fle_total [of z z]
    by (auto simp: fmin_def)
  have "fle (foldl fmin (fmin y z) zs) (fmin y z)" using ih(2) by simp
  then have "fle (foldl fmin (fmin y z) zs) y" "fle (foldl fmin (fmin y z) zs) z"
    using le by (blast intro: fle_trans)+
  then show ?case using ih m(2) by auto
qed

lemma series_min_all_nan: "\<forall>x\<in>set xs. x = NaN \<Longrightarrow> series_min xs = NaN"
  by (simp add: series_min_def isnan_def filter_empty_conv [THEN iffD2])

lemma series_min_least:
  assumes "\<exists>x\<in>set xs. x \<noteq> NaN"
  shows "series_min xs \<in> set xs \<and> series_min xs \<noteq> NaN \<and>
         (\<forall>x\<in>set xs. x \<noteq> NaN \<longrightarrow> fle (series_min xs) x)"
proof -
  obtain y ys where f: "filter (\<lambda>x. \<not> isnan x) xs = y # ys"
    using assms by (cases "filter (\<lambda>x. \<not> isnan x) xs") (auto simp: filter_empty_conv isnan_def)
  have s: "set (y # ys) = {x \<in> set xs. x \<noteq> NaN}"
    unfolding f [symmetric] by (auto simp: isnan_def)
  then have "\<forall>z\<in>set (y # ys). z \<noteq> NaN" by blast
  then have "foldl fmin y ys \<in> set (y # ys) \<and> (\<forall>z\<in>set (y # ys). fle (foldl fmin y ys) z)"
    by (rule foldl_fmin_in_least)
  moreover have "series_min xs = foldl fmin y ys" using f by (simp add: series_min_def)
  ultimately show ?thesis unfolding s by auto
qed

lemma series_min_eqI:
  assumes "m \<in> set xs" and "m \<noteq> NaN" and "\<forall>x\<in>set xs. x \<noteq> NaN \<longrightarrow> fle m x"
  shows "series_min xs = m"
proof -
  have "series_min xs \<in> set xs \<and> series_min xs \<noteq> NaN \<and>
         (\<forall>x\<in>set xs. x \<noteq> NaN \<longrightarrow> fle (series_min xs) x)"
    using assms(1,2) by (intro series_min_least) blast
  then have "fle (series_min xs) m" "fle m (series_min xs)" using assms by auto
  then show ?thesis by (rule fle_antisym)
qed

lemma series_min_set_cong:
  assumes "set xs = set ys"
  shows "series_min xs = series_min ys"
proof (cases "\<forall>x\<in>set xs. x = NaN")
  case True
  then show ?thesis using assms by (simp add: series_min_all_nan)
next
  case False
  then have "\<exists>x\<in>set ys. x \<noteq> NaN" using assms by blast
  then have "series_min ys \<in> set ys \<and> series_min ys \<noteq> NaN \<and>
         (\<forall>x\<in>set ys. x \<noteq> NaN \<longrightarrow> fle (series_min ys) x)"
    by (rule series_min_least)
  then show ?thesis using assms by (intro series_min_eqI) auto
qed

lemma ranked_table_row:
  assumes "q \<in> set (all_results df)"
  shows "\<lparr>Strategy = Strategy q, Avg_Price = Avg_Price q,
           Relative_Deviation =
             relative_deviation (series_min (map Avg_Price (all_results df))) (Avg_Price q)\<rparr>
         \<in> set (ranked_table df)"
proof -
  have "series_min (map Avg_Price (sort_values (all_results df))) =
        series_min (map Avg_Price (all_results df))"
    by (rule series_min_set_cong) (simp add: set_sort_values)
  then show ?thesis
    using assms by (auto simp: ranked_table_def set_relative_deviation_def set_sort_values)
qed

lemma series_min_nan_iff: "series_min xs = NaN \<longleftrightarrow> (\<forall>x\<in>set xs. x = NaN)"
  using series_min_all_nan [of xs] series_min_least [of xs] by blast

lemma prices_ranked_table:
  "set (map Avg_Price (ranked_table df)) = set (map Avg_Price (all_results df))"
proof -
  have "map Avg_Price (ranked_table df) = map Avg_Price (sort_values (all_results df))"
    by (simp add: ranked_table_def set_relative_deviation_def o_def)
  then show ?thesis by (simp add: set_sort_values)
qed

section \<open>A table whose best strategy is a weekly one\<close>

lemma daily_fixture_two_days:
  "frame_average (Fin 100) (daily_rows fixture_two_days hour) =
     (if hour = 0 then Fin 40 else if hour = 1 then Fin 100 else NaN)"
  by (simp add: frame_average_def average_price_def daily_rows_def fixture_two_days_def
      getitem_mask_def take_mask_def open_prices_def getitem_def series_sum_def isnan_def
      hour_of_def ns_per_hour_def ns_per_day_def)

lemma weekly_fixture_two_days:
  "frame_average (Fin 100) (weekly_rows fixture_two_days day hour) =
     (if day = 3 \<and> hour = 0 then Fin 25
      else if day = 3 \<and> hour = 1 then Fin 100
      else if day = 4 \<and> hour = 0 then Fin 100 else NaN)"
  by (simp add: frame_average_def average_price_def weekly_rows_def fixture_two_days_def
      getitem_mask_def take_mask_def open_prices_def getitem_def series_sum_def isnan_def
      hour_of_def dayofweek_def ns_per_hour_def ns_per_day_def)

lemma daily_fixture_two_days_in:
  "frame_average (Fin 100) (daily_rows fixture_two_days hour) \<in> {Fin 40, Fin 100, NaN}"
  unfolding daily_fixture_two_days by simp

lemma weekly_fixture_two_days_in:
  "frame_average (Fin 100) (weekly_rows fixture_two_days day hour) \<in> {Fin 25, Fin 100, NaN}"
  unfolding weekly_fixture_two_days by simp

lemma hourly_rows_fixture_two_days: "hourly_rows fixture_two_days = fixture_two_days"
  by (simp add: hourly_rows_def fixture_two_days_def resample_H_first_def hour_bins_def
      hour_floor_def ns_per_hour_def ns_per_day_def Let_def dropna_def getitem_mask_def
      take_mask_def first_valid_def isnan_def upt_rec)

lemma hourly_fixture_two_days:
  "frame_average (Fin 100) (hourly_rows fixture_two_days) = Fin 50"
  unfolding hourly_rows_fixture_two_days
  by (simp add: frame_average_def average_price_def fixture_two_days_def
      open_prices_def getitem_def series_sum_def isnan_def)


lemma ranked_table_entry:
  assumes "r \<in> set (ranked_table df)"
  shows "\<exists>q\<in>set (all_results df). Strategy r = Strategy q \<and> Avg_Price r = Avg_Price q"
  using assms by (auto simp: ranked_table_def set_relative_deviation_def set_sort_values)

lemma entries_fixture_two_days:
  assumes "q \<in> set (all_results fixture_two_days)"
  shows "Avg_Price q \<in> {Fin 25, Fin 40, Fin 50, Fin 100, NaN}"
    and "\<not> startswith (Strategy q) ''Weekly'' \<Longrightarrow> Avg_Price q \<in> {Fin 40, Fin 50, Fin 100, NaN}"
proof -
  consider day hour where "q = \<lparr>Strategy = weekly_label day hour,
       Avg_Price = frame_average (Fin 100) (weekly_rows fixture_two_days (int day) (int hour))\<rparr>"
    | hour where "q = \<lparr>Strategy = daily_label hour,
       Avg_Price = frame_average (Fin 100) (daily_rows fixture_two_days (int hour))\<rparr>"
    | "q = \<lparr>Strategy = ''Hourly'', Avg_Price = frame_average (Fin 100) (hourly_rows fixture_two_days)\<rparr>"
    using assms unfolding set_all_results by blast
  then have "(startswith (Strategy q) ''Weekly'' \<and> Avg_Price q \<in> {Fin 25, Fin 100, NaN}) \<or>
     Avg_Price q \<in> {Fin 40, Fin 50, Fin 100, NaN}"
  proof cases
    case 1
    then show ?thesis
      using weekly_fixture_two_days_in [of "int day" "int hour"]
      by (simp add: startswith_weekly_label)
  next
    case 2
    then show ?thesis using daily_fixture_two_days_in [of "int hour"] by auto
  next
    case 3
    then show ?thesis by (simp add: hourly_fixture_two_days)
  qed
  then show "Avg_Price q \<in> {Fin 25, Fin 40, Fin 50, Fin 100, NaN}"
    and "\<not> startswith (Strategy q) ''Weekly'' \<Longrightarrow> Avg_Price q \<in> {Fin 40, Fin 50, Fin 100, NaN}"
    by auto
qed

lemma weekly_member:
  "day < 7 \<Longrightarrow> hour < 24 \<Longrightarrow>
   \<lparr>Strategy = weekly_label day hour,
    Avg_Price = frame_average (Fin 100) (weekly_rows df (int day) (int hour))\<rparr>
     \<in> set (all_results df)"
  unfolding set_all_results by blast

lemma daily_member:
  "hour < 24 \<Longrightarrow>
   \<lparr>Strategy = daily_label hour,
    Avg_Price = frame_average (Fin 100) (daily_rows df (int hour))\<rparr> \<in> set (all_results df)"
  unfolding set_all_results by blast

lemma hourly_member:
  "\<lparr>Strategy = ''Hourly'', Avg_Price = frame_average (Fin 100) (hourly_rows df)\<rparr>
     \<in> set (all_results df)"
  unfolding set_all_results by blast

lemma min_fixture_two_days:
  "series_min (map Avg_Price (all_results fixture_two_days)) = Fin 25"
proof (rule series_min_eqI)
  have "\<lparr>Strategy = weekly_label 3 0,
    Avg_Price = frame_average (Fin 100) (weekly_rows fixture_two_days (int 3) (int 0))\<rparr>
     \<in> set (all_results fixture_two_days)"
    by (rule weekly_member) simp_all
  then have "Avg_Price \<lparr>Strategy = weekly_label 3 0,
    Avg_Price = frame_average (Fin 100) (weekly_rows fixture_two_days (int 3) (int 0))\<rparr>
     \<in> Avg_Price ` set (all_results fixture_two_days)"
    by (rule imageI)
  then show "Fin 25 \<in> set (map Avg_Price (all_results fixture_two_days))"
    using weekly_fixture_two_days [of 3 0] by simp
  show "Fin 25 \<noteq> NaN" by simp
  show "\<forall>x\<in>set (map Avg_Price (all_results fixture_two_days)). x \<noteq> NaN \<longrightarrow> fle (Fin 25) x"
    using entries_fixture_two_days(1) by fastforce
qed

lemma rows_fixture_two_days:
  "\<lparr>Strategy = ''Weekly Thursday 0:00'', Avg_Price = Fin 25, Relative_Deviation = Fin 0\<rparr>
     \<in> set (ranked_table fixture_two_days)"
  "\<lparr>Strategy = ''Daily 0:00'', Avg_Price = Fin 40, Relative_Deviation = Fin 60\<rparr>
     \<in> set (ranked_table fixture_two_days)"
  "\<lparr>Strategy = ''Daily 1:00'', Avg_Price = Fin 100, Relative_Deviation = Fin 300\<rparr>
     \<in> set (ranked_table fixture_two_days)"
  "\<lparr>Strategy = ''Daily 2:00'', Avg_Price = NaN, Relative_Deviation = NaN\<rparr>
     \<in> set (ranked_table fixture_two_days)"
  "\<lparr>Strategy = ''Hourly'', Avg_Price = Fin 50, Relative_Deviation = Fin 100\<rparr>
     \<in> set (ranked_table fixture_two_days)"
  using ranked_table_row [OF weekly_member [of 3 0 fixture_two_days]]
    ranked_table_row [OF daily_member [of 0 fixture_two_days]]
    ranked_table_row [OF daily_member [of 1 fixture_two_days]]
    ranked_table_row [OF daily_member [of 2 fixture_two_days]]
    ranked_table_row [OF hourly_member [of fixture_two_days]]
  by (simp_all add: daily_fixture_two_days weekly_fixture_two_days min_fixture_two_days hourly_fixture_two_days
      relative_deviation_def fsub_def weekly_label_def daily_label_def day_names_def str_nat.simps)


lemma min_ranked_fixture_two_days:
  "series_min (map Avg_Price (ranked_table fixture_two_days)) = Fin 25"
  using series_min_set_cong [OF prices_ranked_table [of fixture_two_days]]
  by (simp add: min_fixture_two_days)

section \<open>The claims\<close>

subsection \<open>C2\<close>

text \<open>
  C2, as the code has it. For a table whose Open prices are all 100 and the amount
  100, the ranked table has 193 rows, and each row has either the price 100 and the
  deviation 0, or NaN for both. A weekly or daily strategy has the price 100
  exactly when some row of the table matches its predicate, and the hourly one
  exactly when it buys at some row. For 48 rows one hour apart, all 24 daily
  strategies have the price 100 and the deviation 0, and so has the hourly one when
  no column holds a NaN.
\<close>

theorem constant_price_table:
  assumes "d < length h"
    and "getitem (h ! d) ''Open'' = Inr (replicate (length (index (h ! d))) (Fin 100))"
  shows "\<exists>table. fst (compare_strategies d h) = Inr table \<and> length table = 193 \<and>
     (\<forall>r\<in>set table. Avg_Price r = Fin 100 \<and> Relative_Deviation r = Fin 0 \<or>
                      Avg_Price r = NaN \<and> Relative_Deviation r = NaN) \<and>
     (\<forall>day<7. \<forall>hour<24.
        \<lparr>Strategy = weekly_label day hour,
         Avg_Price = (if \<exists>t\<in>set (index (h ! d)). dayofweek t = int day \<and> hour_of t = int hour
                      then Fin 100 else NaN),
         Relative_Deviation = (if \<exists>t\<in>set (index (h ! d)). dayofweek t = int day \<and> hour_of t = int hour
                               then Fin 0 else NaN)\<rparr> \<in> set table) \<and>
     (\<forall>hour<24.
        \<lparr>Strategy = daily_label hour,
         Avg_Price = (if \<exists>t\<in>set (index (h ! d)). hour_of t = int hour then Fin 100 else NaN),
         Relative_Deviation = (if \<exists>t\<in>set (index (h ! d)). hour_of t = int hour
                               then Fin 0 else NaN)\<rparr> \<in> set table) \<and>
     \<lparr>Strategy = ''Hourly'',
      Avg_Price = (if index (dropna (resample_H_first (h ! d))) \<noteq> [] then Fin 100 else NaN),
      Relative_Deviation = (if index (dropna (resample_H_first (h ! d))) \<noteq> [] then Fin 0 else NaN)\<rparr>
        \<in> set table \<and>
     (\<forall>t0. index (h ! d) = map (\<lambda>k. t0 + int k * ns_per_hour) [0..<48] \<longrightarrow>
        (\<forall>hour<24. \<lparr>Strategy = daily_label hour, Avg_Price = Fin 100,
                      Relative_Deviation = Fin 0\<rparr> \<in> set table) \<and>
        (rectangular (h ! d) \<and> (\<forall>(n, c)\<in>set (columns (h ! d)). NaN \<notin> set c) \<longrightarrow>
           \<lparr>Strategy = ''Hourly'', Avg_Price = Fin 100, Relative_Deviation = Fin 0\<rparr> \<in> set table))"
proof -
  let ?df = "h ! d"
  let ?table = "ranked_table ?df"
  note opn = assms(2)
  have weekly: "frame_average (Fin 100) (weekly_rows ?df (int day) (int hour)) =
      (if \<exists>t\<in>set (index ?df). dayofweek t = int day \<and> hour_of t = int hour then Fin 100 else NaN)"
    for day hour
    unfolding weekly_rows_def by (rule selection_constant [OF opn])
  have daily: "frame_average (Fin 100) (daily_rows ?df (int hour)) =
      (if \<exists>t\<in>set (index ?df). hour_of t = int hour then Fin 100 else NaN)" for hour
    unfolding daily_rows_def by (rule selection_constant [OF opn])
  have hourly: "frame_average (Fin 100) (hourly_rows ?df) =
      (if index (dropna (resample_H_first ?df)) \<noteq> [] then Fin 100 else NaN)"
    using hourly_constant [OF opn] by (simp add: hourly_rows_def)
  have all: "\<forall>r\<in>set (all_results ?df). Avg_Price r = Fin 100 \<or> Avg_Price r = NaN"
    unfolding set_all_results using weekly daily hourly by auto
  have c0: "fst (compare_strategies d h) = Inr ?table"
    by (rule compare_strategies_table [OF assms(1) opn])
  have c1: "length ?table = 193" by (rule length_ranked_table)
  have c2: "\<forall>r\<in>set ?table. Avg_Price r = Fin 100 \<and> Relative_Deviation r = Fin 0 \<or>
                      Avg_Price r = NaN \<and> Relative_Deviation r = NaN"
    unfolding ranked_table_constant [OF all, simplified] using all
    by (auto simp: set_sort_values)
  have c3: "\<forall>day<7. \<forall>hour<24.
        \<lparr>Strategy = weekly_label day hour,
         Avg_Price = (if \<exists>t\<in>set (index ?df). dayofweek t = int day \<and> hour_of t = int hour
                      then Fin 100 else NaN),
         Relative_Deviation = (if \<exists>t\<in>set (index ?df). dayofweek t = int day \<and> hour_of t = int hour
                               then Fin 0 else NaN)\<rparr> \<in> set ?table"
  proof (intro allI impI)
    fix day hour :: nat assume dh: "day < 7" "hour < 24"
    have "\<lparr>Strategy = weekly_label day hour,
         Avg_Price = frame_average (Fin 100) (weekly_rows ?df (int day) (int hour))\<rparr>
           \<in> set (all_results ?df)"
      unfolding set_all_results using dh by blast
    then show "\<lparr>Strategy = weekly_label day hour,
         Avg_Price = (if \<exists>t\<in>set (index ?df). dayofweek t = int day \<and> hour_of t = int hour
                      then Fin 100 else NaN),
         Relative_Deviation = (if \<exists>t\<in>set (index ?df). dayofweek t = int day \<and> hour_of t = int hour
                               then Fin 0 else NaN)\<rparr> \<in> set ?table"
      unfolding weekly by (intro ranked_table_member [OF all]) simp_all
  qed
  have c4: "\<forall>hour<24.
        \<lparr>Strategy = daily_label hour,
         Avg_Price = (if \<exists>t\<in>set (index ?df). hour_of t = int hour then Fin 100 else NaN),
         Relative_Deviation = (if \<exists>t\<in>set (index ?df). hour_of t = int hour
                               then Fin 0 else NaN)\<rparr> \<in> set ?table"
  proof (intro allI impI)
    fix hour :: nat assume dh: "hour < 24"
    have "\<lparr>Strategy = daily_label hour,
         Avg_Price = frame_average (Fin 100) (daily_rows ?df (int hour))\<rparr>
           \<in> set (all_results ?df)"
      unfolding set_all_results using dh by blast
    then show "\<lparr>Strategy = daily_label hour,
         Avg_Price = (if \<exists>t\<in>set (index ?df). hour_of t = int hour then Fin 100 else NaN),
         Relative_Deviation = (if \<exists>t\<in>set (index ?df). hour_of t = int hour
                               then Fin 0 else NaN)\<rparr> \<in> set ?table"
      unfolding daily by (intro ranked_table_member [OF all]) simp_all
  qed
  have c5: "\<lparr>Strategy = ''Hourly'',
      Avg_Price = (if index (dropna (resample_H_first ?df)) \<noteq> [] then Fin 100 else NaN),
      Relative_Deviation = (if index (dropna (resample_H_first ?df)) \<noteq> [] then Fin 0 else NaN)\<rparr>
        \<in> set ?table"
  proof -
    have "\<lparr>Strategy = ''Hourly'', Avg_Price = frame_average (Fin 100) (hourly_rows ?df)\<rparr>
           \<in> set (all_results ?df)"
      unfolding set_all_results by blast
    then show ?thesis
      unfolding hourly by (intro ranked_table_member [OF all]) simp_all
  qed
  have c6: "(\<forall>hour<24. \<lparr>Strategy = daily_label hour, Avg_Price = Fin 100,
                      Relative_Deviation = Fin 0\<rparr> \<in> set ?table) \<and>
        (rectangular ?df \<and> (\<forall>(n, c)\<in>set (columns ?df). NaN \<notin> set c) \<longrightarrow>
           \<lparr>Strategy = ''Hourly'', Avg_Price = Fin 100, Relative_Deviation = Fin 0\<rparr> \<in> set ?table)"
    if idx: "index ?df = map (\<lambda>k. t0 + int k * ns_per_hour) [0..<48]" for t0
  proof (intro conjI allI impI)
    fix hour :: nat assume hour: "hour < 24"
    obtain k where k: "k < 24" "hour_of (t0 + int k * ns_per_hour) = int hour"
      using every_hour_in_a_day [OF hour, of t0] by blast
    have "t0 + int k * ns_per_hour \<in> set (index ?df)"
      unfolding idx using k(1) by (auto intro!: image_eqI [where x = k])
    then have ex: "\<exists>t\<in>set (index ?df). hour_of t = int hour" using k(2) by blast
    show "\<lparr>Strategy = daily_label hour, Avg_Price = Fin 100,
                      Relative_Deviation = Fin 0\<rparr> \<in> set ?table"
      using c4 [rule_format, OF hour] by (simp only: ex if_True)
  next
    assume "rectangular ?df \<and> (\<forall>(n, c)\<in>set (columns ?df). NaN \<notin> set c)"
    moreover have "index ?df \<noteq> []" unfolding idx by simp
    ultimately have "index (hourly_rows ?df) \<noteq> []"
      using hourly_rows_not_empty [of ?df] by blast
    then show "\<lparr>Strategy = ''Hourly'', Avg_Price = Fin 100, Relative_Deviation = Fin 0\<rparr> \<in> set ?table"
      using c5 by (simp add: hourly_rows_def)
  qed
  show ?thesis
    by (intro exI [of _ ?table] conjI c0 c1 c2 c3 c4 c5 allI impI) (use c6 in blast)+
qed

theorem constant_price_table_witness:
  "\<exists>table. fst (compare_strategies 0 [fixture_48_hours]) = Inr table \<and> length table = 193 \<and>
     (\<forall>r\<in>set table. Avg_Price r = Fin 100 \<and> Relative_Deviation r = Fin 0 \<or>
                      Avg_Price r = NaN \<and> Relative_Deviation r = NaN) \<and>
     (\<forall>hour<24. \<lparr>Strategy = daily_label hour, Avg_Price = Fin 100,
                   Relative_Deviation = Fin 0\<rparr> \<in> set table) \<and>
     \<lparr>Strategy = ''Hourly'', Avg_Price = Fin 100, Relative_Deviation = Fin 0\<rparr> \<in> set table"
proof -
  have p: "0 < length [fixture_48_hours]" by simp
  have o: "getitem ([fixture_48_hours] ! 0) ''Open'' =
             Inr (replicate (length (index ([fixture_48_hours] ! 0))) (Fin 100))"
    using getitem_fixture_48_hours by simp
  have i: "index ([fixture_48_hours] ! 0) = map (\<lambda>k. 0 + int k * ns_per_hour) [0..<48]"
    by (simp add: fixture_48_hours_def)
  have r: "rectangular ([fixture_48_hours] ! 0) \<and>
           (\<forall>(n, c)\<in>set (columns ([fixture_48_hours] ! 0)). NaN \<notin> set c)"
    by (simp add: fixture_48_hours_def rectangular_def)
  obtain table where t: "fst (compare_strategies 0 [fixture_48_hours]) = Inr table"
    "length table = 193"
    "\<forall>r\<in>set table. Avg_Price r = Fin 100 \<and> Relative_Deviation r = Fin 0 \<or>
                      Avg_Price r = NaN \<and> Relative_Deviation r = NaN"
    and w: "\<forall>t0. index ([fixture_48_hours] ! 0) = map (\<lambda>k. t0 + int k * ns_per_hour) [0..<48] \<longrightarrow>
        (\<forall>hour<24. \<lparr>Strategy = daily_label hour, Avg_Price = Fin 100,
                      Relative_Deviation = Fin 0\<rparr> \<in> set table) \<and>
        (rectangular ([fixture_48_hours] ! 0) \<and>
           (\<forall>(n, c)\<in>set (columns ([fixture_48_hours] ! 0)). NaN \<notin> set c) \<longrightarrow>
           \<lparr>Strategy = ''Hourly'', Avg_Price = Fin 100, Relative_Deviation = Fin 0\<rparr> \<in> set table)"
    using constant_price_table [OF p o] by blast
  have "(\<forall>hour<24. \<lparr>Strategy = daily_label hour, Avg_Price = Fin 100,
                      Relative_Deviation = Fin 0\<rparr> \<in> set table) \<and>
        \<lparr>Strategy = ''Hourly'', Avg_Price = Fin 100, Relative_Deviation = Fin 0\<rparr> \<in> set table"
    using w [rule_format, OF i] r by blast
  then show ?thesis using t by blast
qed

text \<open>
  C2 as stated fails for the weekly strategies: 48 hours from Thursday 1970-01-01
  00:00 hold no Monday, and the strategy \<^verbatim>\<open>Weekly Monday 0:00\<close> has the price NaN
  and the deviation NaN.
\<close>

theorem weekly_nan_in_48_hours:
  "\<lparr>Strategy = ''Weekly Monday 0:00'', Avg_Price = NaN, Relative_Deviation = NaN\<rparr>
     \<in> set (projr (fst (compare_strategies 0 [fixture_48_hours])))"
proof -
  let ?df = "fixture_48_hours"
  have o: "getitem ([?df] ! 0) ''Open'' = Inr (replicate (length (index ?df)) (Fin 100))"
    using getitem_fixture_48_hours by simp
  have "fst (compare_strategies 0 [?df]) = Inr (ranked_table ([?df] ! 0))"
    by (rule compare_strategies_table [OF _ o]) simp
  then have t: "projr (fst (compare_strategies 0 [?df])) = ranked_table ?df" by simp
  have sel: "frame_average (Fin 100) (getitem_mask ?df (map P (index ?df))) =
      (if \<exists>t\<in>set (index ?df). P t then Fin 100 else NaN)" for P
    by (rule selection_constant [OF getitem_fixture_48_hours])
  have all: "\<forall>r\<in>set (all_results ?df). Avg_Price r = Fin 100 \<or> Avg_Price r = NaN"
    unfolding set_all_results weekly_rows_def daily_rows_def
    using sel hourly_constant [OF getitem_fixture_48_hours] by auto
  have "\<forall>t\<in>set (index ?df). \<not> (dayofweek t = int 0 \<and> hour_of t = int 0)"
    using dayofweek_fixture_48_hours by (fastforce simp: fixture_48_hours_def)
  then have "frame_average (Fin 100) (weekly_rows ?df (int 0) (int 0)) = NaN"
    unfolding weekly_rows_def by (rule frame_average_no_match)
  moreover have "\<lparr>Strategy = weekly_label 0 0,
         Avg_Price = frame_average (Fin 100) (weekly_rows ?df (int 0) (int 0))\<rparr>
           \<in> {\<lparr>Strategy = weekly_label day hour,
       Avg_Price = frame_average (Fin 100) (weekly_rows ?df (int day) (int hour))\<rparr> | day hour.
       day < 7 \<and> hour < 24}"
    by (rule CollectI, rule exI [of _ 0], rule exI [of _ 0]) simp
  moreover have "weekly_label 0 0 = ''Weekly Monday 0:00''"
    by (simp add: weekly_label_def day_names_def str_nat.simps)
  ultimately have "\<lparr>Strategy = ''Weekly Monday 0:00'', Avg_Price = (if False then Fin 100 else NaN)\<rparr>
      \<in> set (all_results ?df)"
    unfolding set_all_results by simp
  then have "\<lparr>Strategy = ''Weekly Monday 0:00'', Avg_Price = (if False then Fin 100 else NaN),
      Relative_Deviation = (if False then Fin 0 else NaN)\<rparr> \<in> set (ranked_table ?df)"
    by (intro ranked_table_member [OF all]) simp_all
  then show ?thesis unfolding t by simp
qed

subsection \<open>C3\<close>

text \<open>
  C3. When the predicate of a strategy matches no row of the table (for the
  hourly strategy: when no hour has a complete row), the simulator raises nothing and
  returns NaN as the average price, the quotient of a zero total cost by a zero
  total quantity.
\<close>

theorem no_match_gives_nan:
  assumes "data < length h" and "getitem (h ! data) ''Open'' = Inr opn"
  shows
    "((\<forall>t\<in>set (index (h ! data)). \<not> (dayofweek t = weekday \<and> hour_of t = hour)) \<longrightarrow>
        (\<exists>purchases. fst (simulate_weekly_dca data weekday hour amount h) = Inr (purchases, NaN))) \<and>
     ((\<forall>t\<in>set (index (h ! data)). hour_of t \<noteq> hour) \<longrightarrow>
        (\<exists>purchases. fst (simulate_daily_dca data hour amount h) = Inr (purchases, NaN))) \<and>
     (index (dropna (resample_H_first (h ! data))) = [] \<longrightarrow>
        (\<exists>purchases. fst (simulate_hourly_dca data amount h) = Inr (purchases, NaN))) \<and>
     fdiv (series_sum []) (series_sum []) = NaN"
proof (intro conjI impI)
  assume "\<forall>t\<in>set (index (h ! data)). \<not> (dayofweek t = weekday \<and> hour_of t = hour)"
  then have "frame_average amount (weekly_rows (h ! data) weekday hour) = NaN"
    unfolding weekly_rows_def by (rule frame_average_no_match)
  then show "\<exists>purchases. fst (simulate_weekly_dca data weekday hour amount h) = Inr (purchases, NaN)"
    using weekly_value [OF assms, of weekday hour amount] by auto
next
  assume "\<forall>t\<in>set (index (h ! data)). hour_of t \<noteq> hour"
  then have "frame_average amount (daily_rows (h ! data) hour) = NaN"
    unfolding daily_rows_def by (intro frame_average_no_match) simp
  then show "\<exists>purchases. fst (simulate_daily_dca data hour amount h) = Inr (purchases, NaN)"
    using daily_value [OF assms, of hour amount] by auto
next
  assume "index (dropna (resample_H_first (h ! data))) = []"
  then have "index (hourly_rows (h ! data)) = []" by (simp add: hourly_rows_def)
  then have "frame_average amount (hourly_rows (h ! data)) = NaN"
    by (rule hourly_rows_no_row)
  then show "\<exists>purchases. fst (simulate_hourly_dca data amount h) = Inr (purchases, NaN)"
    using hourly_value [OF assms, of amount] by auto
next
  show "fdiv (series_sum []) (series_sum []) = NaN"
    by (simp add: series_sum_def)
qed

theorem no_match_gives_nan_witness:
  "(\<exists>purchases. fst (simulate_weekly_dca 0 0 0 (Fin 100) [fixture_10_20_30]) = Inr (purchases, NaN)) \<and>
   (\<exists>purchases. fst (simulate_daily_dca 0 5 (Fin 100) [fixture_10_20_30]) = Inr (purchases, NaN)) \<and>
   (\<exists>purchases. fst (simulate_hourly_dca 0 (Fin 100) [\<lparr>index = [], columns = [(''Open'', [])]\<rparr>]) =
      Inr (purchases, NaN))"
  using no_match_gives_nan [of 0 "[fixture_10_20_30]" "[Fin 10, Fin 20, Fin 30]" 0 0 "Fin 100"]
    no_match_gives_nan [of 0 "[fixture_10_20_30]" "[Fin 10, Fin 20, Fin 30]" 0 5 "Fin 100"]
    no_match_gives_nan [of 0 "[\<lparr>index = [], columns = [(''Open'', [])]\<rparr>]" "[]" 0 0 "Fin 100"]
  by (simp add: fixture_10_20_30_def getitem_def hour_of_def dayofweek_def
      ns_per_day_def ns_per_hour_def index_hourly_rows_empty [unfolded hourly_rows_def])

subsection \<open>C4\<close>

text \<open>
  C4, as the code has it. For a loaded table whose index is in ascending order
  and two dates that pass the test of line 137, the slice
  \<^verbatim>\<open>data.loc[start_date:end_date]\<close> does not raise, the timestamps of the sliced
  frame are those of the table from \<open>start_date\<close> to \<open>end_date\<close>, both included,
  every row of the table whose timestamp is exactly \<open>start_date\<close> or exactly
  \<open>end_date\<close> is a row of the sliced frame, and the sliced frame is the one
  \<^verbatim>\<open>main\<close> runs the comparison on.
\<close>

theorem date_filter_inclusive:
  assumes "data < length h" and "rectangular (h ! data)"
    and "sorted (index (h ! data))"
    and "date_range_ok (h ! data) start_date end_date"
  shows "\<exists>sliced. loc_slice (h ! data) start_date end_date = Inr sliced \<and>
           index sliced =
             filter (\<lambda>t. start_date \<le> t \<and> t \<le> end_date) (index (h ! data)) \<and>
           (\<forall>i<length (index (h ! data)).
              index (h ! data) ! i = start_date \<or> index (h ! data) ! i = end_date \<longrightarrow>
              (\<exists>j<length (index sliced). row sliced j = row (h ! data) i)) \<and>
           fst (main data start_date end_date h) =
             (case fst (compare_strategies (length h) (h @ [sliced])) of
                Inl e \<Rightarrow> Inl e
              | Inr results_df \<Rightarrow>
                  Inr (results_df, visualize_bar_chart results_df,
                       visualize_filtered_bar_chart results_df))"
proof -
  let ?df = "h ! data"
  let ?P = "\<lambda>t. start_date \<le> t \<and> t \<le> end_date"
  let ?sliced = "getitem_mask ?df (map ?P (index ?df))"
  have le: "start_date \<le> end_date" by (rule date_range_ok_le [OF assms(4)])
  have c1: "loc_slice ?df start_date end_date = Inr ?sliced"
    by (rule loc_slice_sorted [OF assms(3) le])
  have c2: "index ?sliced = filter ?P (index ?df)"
    by (simp add: getitem_mask_def take_mask_self)
  have c3: "\<forall>i<length (index ?df).
              index ?df ! i = start_date \<or> index ?df ! i = end_date \<longrightarrow>
              (\<exists>j<length (index ?sliced). row ?sliced j = row ?df i)"
  proof (intro allI impI)
    fix i
    assume i: "i < length (index ?df)"
      and t: "index ?df ! i = start_date \<or> index ?df ! i = end_date"
    have "?P (index ?df ! i)" using t le by auto
    then show "\<exists>j<length (index ?sliced). row ?sliced j = row ?df i"
      by (intro getitem_mask_row [OF assms(2) i])
  qed
  have c4: "fst (main data start_date end_date h) =
             (case fst (compare_strategies (length h) (h @ [?sliced])) of
                Inl e \<Rightarrow> Inl e
              | Inr results_df \<Rightarrow>
                  Inr (results_df, visualize_bar_chart results_df,
                       visualize_filtered_bar_chart results_df))"
    using c1 by (simp add: main_runs_comparison)
  show ?thesis by (intro exI [of _ ?sliced] conjI c1 c2 c3 c4)
qed

theorem date_filter_inclusive_witness:
  "loc_slice fixture_4_days ns_per_day (2 * ns_per_day) =
     Inr \<lparr>index = [ns_per_day, ns_per_day + ns_per_hour, 2 * ns_per_day],
          columns = [(''Open'', [Fin 20, Fin 30, Fin 40])]\<rparr> \<and>
   (\<exists>sliced. loc_slice fixture_4_days ns_per_day (2 * ns_per_day) = Inr sliced \<and>
      (\<exists>j<length (index sliced). row sliced j = row fixture_4_days 1) \<and>
      (\<exists>j<length (index sliced). row sliced j = row fixture_4_days 3))"
proof -
  have p: "0 < length [fixture_4_days]" by simp
  have r: "rectangular ([fixture_4_days] ! 0)"
    by (simp add: rectangular_def fixture_4_days_def)
  have o: "sorted (index ([fixture_4_days] ! 0))"
    by (simp add: fixture_4_days_def ns_per_day_def ns_per_hour_def)
  have d: "date_range_ok ([fixture_4_days] ! 0) ns_per_day (2 * ns_per_day)"
    by (simp add: date_range_ok_def fixture_4_days_def ns_per_day_def ns_per_hour_def)
  have s: "loc_slice fixture_4_days ns_per_day (2 * ns_per_day) =
     Inr \<lparr>index = [ns_per_day, ns_per_day + ns_per_hour, 2 * ns_per_day],
          columns = [(''Open'', [Fin 20, Fin 30, Fin 40])]\<rparr>"
    by (simp add: loc_slice_def get_slice_bound_def iloc_slice_def fixture_4_days_def
        ns_per_day_def ns_per_hour_def)
  have i1: "index ([fixture_4_days] ! 0) ! 1 = ns_per_day"
    and i3: "index ([fixture_4_days] ! 0) ! 3 = 2 * ns_per_day"
    by (simp_all add: fixture_4_days_def)
  have l: "(1::nat) < length (index ([fixture_4_days] ! 0))" "(3::nat) < length (index ([fixture_4_days] ! 0))"
    by (simp_all add: fixture_4_days_def)
  obtain sliced where t: "loc_slice ([fixture_4_days] ! 0) ns_per_day (2 * ns_per_day) = Inr sliced"
    and rows: "\<forall>i<length (index ([fixture_4_days] ! 0)).
              index ([fixture_4_days] ! 0) ! i = ns_per_day \<or>
              index ([fixture_4_days] ! 0) ! i = 2 * ns_per_day \<longrightarrow>
              (\<exists>j<length (index sliced). row sliced j = row ([fixture_4_days] ! 0) i)"
    using date_filter_inclusive [OF p r o d] by blast
  have "\<exists>j<length (index sliced). row sliced j = row ([fixture_4_days] ! 0) 1"
    using rows [rule_format, OF l(1)] i1 by blast
  moreover have "\<exists>j<length (index sliced). row sliced j = row ([fixture_4_days] ! 0) 3"
    using rows [rule_format, OF l(2)] i3 by blast
  ultimately have "\<exists>sliced. loc_slice fixture_4_days ns_per_day (2 * ns_per_day) = Inr sliced \<and>
      (\<exists>j<length (index sliced). row sliced j = row fixture_4_days 1) \<and>
      (\<exists>j<length (index sliced). row sliced j = row fixture_4_days 3)"
    using t by (intro exI [of _ sliced]) simp
  then show ?thesis using s by blast
qed

text \<open>
  C4 as stated fails for a table that is not in ascending order, which
  \<^verbatim>\<open>prepare_data\<close> loads as it is (it does not sort). With the newest row first,
  the dates 1970-01-02 and 1970-01-03 pass the test of line 137 and both are
  timestamps of the table, but the slice runs from the position of the first date
  to the position after the second one, which comes before it: the filtered frame
  has no row, and it is the frame the comparison runs on.
\<close>

theorem newest_first_slice_is_empty:
  "date_range_ok fixture_newest_first ns_per_day (2 * ns_per_day) \<and>
   index fixture_newest_first ! 2 = ns_per_day \<and>
   index fixture_newest_first ! 1 = 2 * ns_per_day \<and>
   loc_slice fixture_newest_first ns_per_day (2 * ns_per_day) =
     Inr \<lparr>index = [], columns = [(''Open'', [])]\<rparr> \<and>
   fst (main 0 ns_per_day (2 * ns_per_day) [fixture_newest_first]) =
     Inr (ranked_table \<lparr>index = [], columns = [(''Open'', [])]\<rparr>,
          visualize_bar_chart (ranked_table \<lparr>index = [], columns = [(''Open'', [])]\<rparr>),
          visualize_filtered_bar_chart (ranked_table \<lparr>index = [], columns = [(''Open'', [])]\<rparr>))"
proof -
  have s: "loc_slice fixture_newest_first ns_per_day (2 * ns_per_day) =
     Inr \<lparr>index = [], columns = [(''Open'', [])]\<rparr>"
    by (simp add: loc_slice_def get_slice_bound_def iloc_slice_def fixture_newest_first_def
        ns_per_day_def ns_per_hour_def)
  have d: "date_range_ok fixture_newest_first ns_per_day (2 * ns_per_day)"
    by (simp add: date_range_ok_def fixture_newest_first_def ns_per_day_def ns_per_hour_def)
  have i: "index fixture_newest_first ! 2 = ns_per_day"
    "index fixture_newest_first ! 1 = 2 * ns_per_day"
    by (simp_all add: fixture_newest_first_def)
  have m: "fst (main 0 ns_per_day (2 * ns_per_day) [fixture_newest_first]) =
     Inr (ranked_table \<lparr>index = [], columns = [(''Open'', [])]\<rparr>,
          visualize_bar_chart (ranked_table \<lparr>index = [], columns = [(''Open'', [])]\<rparr>),
          visualize_filtered_bar_chart (ranked_table \<lparr>index = [], columns = [(''Open'', [])]\<rparr>))"
    by (rule main_table [where opn = "[]"]) (simp_all add: s getitem_def)
  show ?thesis by (intro conjI d i s m)
qed

subsection \<open>C5\<close>

text \<open>
  C5, as the code has it. Every label of the ranked table is \<^verbatim>\<open>Hourly\<close>, or
  \<^verbatim>\<open>Daily\<close> with an hour, or \<^verbatim>\<open>Weekly\<close> with the name of a weekday and an hour.
  The hour is printed in decimal without padding and followed by \<^verbatim>\<open>:00\<close>: one
  digit for the hours 0 to 9, which is not the format \<^verbatim>\<open>HH:00\<close>, and two digits
  for the hours 10 to 23, which is.
\<close>

theorem labels_unpadded:
  assumes "d < length h" and "getitem (h ! d) ''Open'' = Inr opn"
  shows "\<exists>table. fst (compare_strategies d h) = Inr table \<and>
           (\<forall>r\<in>set table.
              Strategy r = ''Hourly'' \<or>
              (\<exists>hour<24. Strategy r = ''Daily '' @ str_nat hour @ '':00'') \<or>
              (\<exists>day<7. \<exists>hour<24.
                 Strategy r = ''Weekly '' @ day_names ! day @ '' '' @ str_nat hour @ '':00'')) \<and>
           (\<forall>hour<24.
              (hour < 10 \<longrightarrow> str_nat hour = [''0123456789'' ! hour] \<and>
                 str_nat hour @ '':00'' \<noteq> HH_00 hour) \<and>
              (10 \<le> hour \<longrightarrow> str_nat hour @ '':00'' = HH_00 hour))"
proof -
  have "Strategy r = ''Hourly'' \<or>
        (\<exists>hour<24. Strategy r = ''Daily '' @ str_nat hour @ '':00'') \<or>
        (\<exists>day<7. \<exists>hour<24.
           Strategy r = ''Weekly '' @ day_names ! day @ '' '' @ str_nat hour @ '':00'')"
    if "r \<in> set (ranked_table (h ! d))" for r
  proof -
    have "Strategy r \<in> Strategy ` set (all_results (h ! d))"
      using that labels_ranked_table [of "h ! d"] by blast
    then consider day hour where "day < 7" "hour < 24" "Strategy r = weekly_label day hour"
      | hour where "hour < 24" "Strategy r = daily_label hour"
      | "Strategy r = ''Hourly''"
      unfolding set_all_results by auto
    then show ?thesis
    proof cases
      case 1
      then have "\<exists>day<7. \<exists>hour<24.
           Strategy r = ''Weekly '' @ day_names ! day @ '' '' @ str_nat hour @ '':00''"
        unfolding weekly_label_def by blast
      then show ?thesis by blast
    next
      case 2
      then have "\<exists>hour<24. Strategy r = ''Daily '' @ str_nat hour @ '':00''"
        unfolding daily_label_def by blast
      then show ?thesis by blast
    next
      case 3
      then show ?thesis by blast
    qed
  qed
  then show ?thesis
    using compare_strategies_table [OF assms] str_nat_one_digit str_nat_not_HH_00 str_nat_HH_00
    by simp
qed

theorem labels_unpadded_witness:
  "\<exists>table. fst (compare_strategies 0 [fixture_3_hours]) = Inr table \<and>
     (\<forall>r\<in>set table.
        Strategy r = ''Hourly'' \<or>
        (\<exists>hour<24. Strategy r = ''Daily '' @ str_nat hour @ '':00'') \<or>
        (\<exists>day<7. \<exists>hour<24.
           Strategy r = ''Weekly '' @ day_names ! day @ '' '' @ str_nat hour @ '':00'')) \<and>
     str_nat 5 @ '':00'' = ''5:00'' \<and> str_nat 13 @ '':00'' = ''13:00''"
proof -
  have p: "0 < length [fixture_3_hours]" by simp
  have o: "getitem ([fixture_3_hours] ! 0) ''Open'' = Inr [Fin 10, Fin 20, Fin 30]"
    by (simp add: fixture_3_hours_def getitem_def)
  have "str_nat 5 @ '':00'' = ''5:00''" and "str_nat 13 @ '':00'' = ''13:00''"
    by (simp_all add: str_nat.simps)
  then show ?thesis using labels_unpadded [OF p o] by blast
qed

text \<open>
  C5 as stated fails for the hours 0 to 9: the ranked table has the label
  \<^verbatim>\<open>Daily 5:00\<close>, which is not a label in the format \<^verbatim>\<open>HH:00\<close>.
\<close>

theorem label_not_HH_00:
  "''Daily 5:00'' \<in> Strategy ` set (projr (fst (compare_strategies 0 [fixture_3_hours]))) \<and>
   \<not> label_in_HH_00_format ''Daily 5:00''"
proof
  have "fst (compare_strategies 0 [fixture_3_hours]) = Inr (ranked_table fixture_3_hours)"
    using compare_strategies_table [of 0 "[fixture_3_hours]" "[Fin 10, Fin 20, Fin 30]"]
    by (simp add: fixture_3_hours_def getitem_def)
  then have t: "projr (fst (compare_strategies 0 [fixture_3_hours])) = ranked_table fixture_3_hours"
    by simp
  have dl: "daily_label 5 = ''Daily 5:00''"
    by (simp add: daily_label_def str_nat.simps)
  have "\<lparr>Strategy = daily_label 5,
       Avg_Price = frame_average (Fin 100) (daily_rows fixture_3_hours (int 5))\<rparr>
         \<in> {\<lparr>Strategy = daily_label hour,
       Avg_Price = frame_average (Fin 100) (daily_rows fixture_3_hours (int hour))\<rparr> | hour. hour < 24}"
    by (rule CollectI, rule exI [of _ 5]) simp
  then have "\<lparr>Strategy = daily_label 5,
       Avg_Price = frame_average (Fin 100) (daily_rows fixture_3_hours (int 5))\<rparr>
         \<in> set (all_results fixture_3_hours)"
    unfolding set_all_results by blast
  then have "Strategy \<lparr>Strategy = daily_label 5,
       Avg_Price = frame_average (Fin 100) (daily_rows fixture_3_hours (int 5))\<rparr>
         \<in> Strategy ` set (all_results fixture_3_hours)"
    by (rule imageI)
  then have "''Daily 5:00'' \<in> Strategy ` set (ranked_table fixture_3_hours)"
    unfolding labels_ranked_table using dl by simp
  then show "''Daily 5:00'' \<in> Strategy ` set (projr (fst (compare_strategies 0 [fixture_3_hours])))"
    unfolding t .
  show "\<not> label_in_HH_00_format ''Daily 5:00''"
    by code_simp
qed

subsection \<open>C6\<close>

text \<open>
  C6. The filtered bar chart is computed from the ranked table without its 168
  rows labelled \<^verbatim>\<open>Weekly\<close>: 25 rows remain, all of them are among the first 30,
  and no row of the chart has a weekly label. The chart has the remaining rows
  with their labels and prices, and the deviation of each row is
  \<open>(price - best) / best * 100\<close>, where \<open>best\<close> is the least price of the remaining
  rows that is not NaN (a price of one of them, not above any other that is not
  NaN), and NaN when there is none.
\<close>

theorem filtered_chart_drops_weekly:
  assumes "d < length h" and "getitem (h ! d) ''Open'' = Inr opn"
  shows "\<exists>table remaining best.
           fst (compare_strategies d h) = Inr table \<and>
           remaining = filter (\<lambda>r. \<not> startswith (Strategy r) ''Weekly'') table \<and>
           length table = 193 \<and> length remaining + 168 = length table \<and>
           take 30 remaining = remaining \<and>
           ((\<forall>r\<in>set remaining. Avg_Price r = NaN) \<longrightarrow> best = NaN) \<and>
           ((\<exists>r\<in>set remaining. Avg_Price r \<noteq> NaN) \<longrightarrow>
              best \<noteq> NaN \<and> best \<in> Avg_Price ` set remaining \<and>
              (\<forall>r\<in>set remaining. Avg_Price r \<noteq> NaN \<longrightarrow> fle best (Avg_Price r))) \<and>
           visualize_filtered_bar_chart table =
             map (\<lambda>r. \<lparr>Strategy = Strategy r, Avg_Price = Avg_Price r,
                        Relative_Deviation =
                          fmul (fdiv (fsub (Avg_Price r) best) best) (Fin 100)\<rparr>) remaining \<and>
           (\<forall>r\<in>set (visualize_filtered_bar_chart table). \<not> startswith (Strategy r) ''Weekly'')"
proof -
  let ?table = "ranked_table (h ! d)"
  define remaining where "remaining = filter (\<lambda>r. \<not> startswith (Strategy r) ''Weekly'') ?table"
  define best where "best = series_min (map Avg_Price remaining)"
  have "length remaining =
          length (filter (\<lambda>r. \<not> startswith (Strategy r) ''Weekly'') (all_results (h ! d)))"
    unfolding remaining_def ranked_table_def filter_set_relative_deviation
      length_set_relative_deviation length_filter_sort_values by (rule refl)
  then have len: "length remaining = 25"
    unfolding filter_all_results by simp
  then have take: "take 30 remaining = remaining" by simp
  have chart: "visualize_filtered_bar_chart ?table =
             map (\<lambda>r. \<lparr>Strategy = Strategy r, Avg_Price = Avg_Price r,
                        Relative_Deviation =
                          fmul (fdiv (fsub (Avg_Price r) best) best) (Fin 100)\<rparr>) remaining"
    using take by (simp add: visualize_filtered_bar_chart_def visualize_bar_chart_def Let_def
        remaining_def best_def set_relative_deviation_def relative_deviation_def)
  have none: "\<forall>r\<in>set (visualize_filtered_bar_chart ?table). \<not> startswith (Strategy r) ''Weekly''"
    unfolding chart by (auto simp: remaining_def)
  have b1: "(\<forall>r\<in>set remaining. Avg_Price r = NaN) \<longrightarrow> best = NaN"
    unfolding best_def by (intro impI series_min_all_nan) simp
  have b2: "(\<exists>r\<in>set remaining. Avg_Price r \<noteq> NaN) \<longrightarrow>
              best \<noteq> NaN \<and> best \<in> Avg_Price ` set remaining \<and>
              (\<forall>r\<in>set remaining. Avg_Price r \<noteq> NaN \<longrightarrow> fle best (Avg_Price r))"
  proof
    assume "\<exists>r\<in>set remaining. Avg_Price r \<noteq> NaN"
    then have "\<exists>x\<in>set (map Avg_Price remaining). x \<noteq> NaN" by simp
    then show "best \<noteq> NaN \<and> best \<in> Avg_Price ` set remaining \<and>
              (\<forall>r\<in>set remaining. Avg_Price r \<noteq> NaN \<longrightarrow> fle best (Avg_Price r))"
      unfolding best_def using series_min_least [of "map Avg_Price remaining"] by simp
  qed
  have c0: "fst (compare_strategies d h) = Inr ?table"
    by (rule compare_strategies_table [OF assms])
  have c2: "length ?table = 193" by (rule length_ranked_table)
  have c3: "length remaining + 168 = length ?table" unfolding c2 len by simp
  show ?thesis
    by (intro exI [of _ ?table] exI [of _ remaining] exI [of _ best] conjI c0 remaining_def c2 c3
        take b1 b2 chart none)
qed

theorem filtered_chart_drops_weekly_witness:
  "\<exists>table. fst (compare_strategies 0 [fixture_two_days]) = Inr table \<and> length table = 193 \<and>
     length (filter (\<lambda>r. \<not> startswith (Strategy r) ''Weekly'') table) = 25 \<and>
     \<lparr>Strategy = ''Weekly Thursday 0:00'', Avg_Price = Fin 25, Relative_Deviation = Fin 0\<rparr>
       \<in> set table \<and>
     \<lparr>Strategy = ''Daily 0:00'', Avg_Price = Fin 40, Relative_Deviation = Fin 60\<rparr> \<in> set table \<and>
     \<lparr>Strategy = ''Hourly'', Avg_Price = Fin 50, Relative_Deviation = Fin 100\<rparr> \<in> set table \<and>
     length (visualize_filtered_bar_chart table) = 25 \<and>
     \<lparr>Strategy = ''Daily 0:00'', Avg_Price = Fin 40, Relative_Deviation = Fin 0\<rparr>
       \<in> set (visualize_filtered_bar_chart table) \<and>
     \<lparr>Strategy = ''Hourly'', Avg_Price = Fin 50, Relative_Deviation = Fin 25\<rparr>
       \<in> set (visualize_filtered_bar_chart table) \<and>
     \<lparr>Strategy = ''Daily 1:00'', Avg_Price = Fin 100, Relative_Deviation = Fin 150\<rparr>
       \<in> set (visualize_filtered_bar_chart table) \<and>
     \<lparr>Strategy = ''Daily 2:00'', Avg_Price = NaN, Relative_Deviation = NaN\<rparr>
       \<in> set (visualize_filtered_bar_chart table) \<and>
     (\<forall>r\<in>set (visualize_filtered_bar_chart table). \<not> startswith (Strategy r) ''Weekly'')"
proof -
  let ?fx = "fixture_two_days"
  let ?g = "\<lambda>best r. \<lparr>Strategy = Strategy r, Avg_Price = Avg_Price r,
                        Relative_Deviation =
                          fmul (fdiv (fsub (Avg_Price r) best) best) (Fin 100)\<rparr>"
  have p: "0 < length [?fx]" by simp
  have o: "getitem ([?fx] ! 0) ''Open'' = Inr [Fin 25, Fin 100, Fin 100]"
    by (simp add: fixture_two_days_def getitem_def)
  obtain table remaining best where t0: "fst (compare_strategies 0 [?fx]) = Inr table"
    and t1: "remaining = filter (\<lambda>r. \<not> startswith (Strategy r) ''Weekly'') table"
    and t2: "length table = 193" and t3: "length remaining + 168 = length table"
    and t4: "(\<exists>r\<in>set remaining. Avg_Price r \<noteq> NaN) \<longrightarrow>
              best \<noteq> NaN \<and> best \<in> Avg_Price ` set remaining \<and>
              (\<forall>r\<in>set remaining. Avg_Price r \<noteq> NaN \<longrightarrow> fle best (Avg_Price r))"
    and t5: "visualize_filtered_bar_chart table = map (?g best) remaining"
    and t6: "\<forall>r\<in>set (visualize_filtered_bar_chart table). \<not> startswith (Strategy r) ''Weekly''"
    using filtered_chart_drops_weekly [OF p o] by blast
  have tab: "table = ranked_table ?fx"
    using compare_strategies_table [OF p o] t0 by simp
  have l: "length remaining = 25" using t2 t3 by simp
  have f: "length (filter (\<lambda>r. \<not> startswith (Strategy r) ''Weekly'') table) = 25"
    using l unfolding t1 .
  have v: "length (visualize_filtered_bar_chart table) = 25" unfolding t5 using l by simp
  note rows = rows_fixture_two_days [folded tab]
  have r0: "\<lparr>Strategy = ''Daily 0:00'', Avg_Price = Fin 40, Relative_Deviation = Fin 60\<rparr>
       \<in> set remaining"
    and r1: "\<lparr>Strategy = ''Daily 1:00'', Avg_Price = Fin 100, Relative_Deviation = Fin 300\<rparr>
       \<in> set remaining"
    and r2: "\<lparr>Strategy = ''Daily 2:00'', Avg_Price = NaN, Relative_Deviation = NaN\<rparr>
       \<in> set remaining"
    and rh: "\<lparr>Strategy = ''Hourly'', Avg_Price = Fin 50, Relative_Deviation = Fin 100\<rparr>
       \<in> set remaining"
    unfolding t1 using rows by (simp_all add: startswith_def)
  have prices: "Avg_Price r \<in> {Fin 40, Fin 50, Fin 100, NaN}" if "r \<in> set remaining" for r
  proof -
    have "r \<in> set (ranked_table ?fx)" "\<not> startswith (Strategy r) ''Weekly''"
      using that unfolding t1 tab by simp_all
    then show ?thesis
      using ranked_table_entry [of r ?fx] entries_fixture_two_days(2) by metis
  qed
  have "\<exists>r\<in>set remaining. Avg_Price r \<noteq> NaN" using r0 by force
  then have b: "best \<noteq> NaN" "best \<in> Avg_Price ` set remaining"
    "\<forall>r\<in>set remaining. Avg_Price r \<noteq> NaN \<longrightarrow> fle best (Avg_Price r)"
    using t4 by blast+
  have "best \<in> {Fin 40, Fin 50, Fin 100}" using b(1,2) prices by auto
  moreover have "fle best (Fin 40)" using b(3) r0 by force
  ultimately have best: "best = Fin 40" by auto
  have c0: "\<lparr>Strategy = ''Daily 0:00'', Avg_Price = Fin 40, Relative_Deviation = Fin 0\<rparr>
       \<in> set (visualize_filtered_bar_chart table)"
    unfolding t5 set_map using imageI [OF r0, of "?g best"] by (simp add: best fsub_def)
  have c1: "\<lparr>Strategy = ''Daily 1:00'', Avg_Price = Fin 100, Relative_Deviation = Fin 150\<rparr>
       \<in> set (visualize_filtered_bar_chart table)"
    unfolding t5 set_map using imageI [OF r1, of "?g best"] by (simp add: best fsub_def)
  have c2: "\<lparr>Strategy = ''Daily 2:00'', Avg_Price = NaN, Relative_Deviation = NaN\<rparr>
       \<in> set (visualize_filtered_bar_chart table)"
    unfolding t5 set_map using imageI [OF r2, of "?g best"] by (simp add: best fsub_def)
  have ch: "\<lparr>Strategy = ''Hourly'', Avg_Price = Fin 50, Relative_Deviation = Fin 25\<rparr>
       \<in> set (visualize_filtered_bar_chart table)"
    unfolding t5 set_map using imageI [OF rh, of "?g best"] by (simp add: best fsub_def)
  show ?thesis
    by (intro exI [of _ table] conjI t0 t2 f rows(1) rows(2) rows(5) v c0 ch c1 c2 t6)
qed


subsection \<open>C7\<close>

text \<open>
  C7, as the code has it. The ranked table is never empty and its first row has
  the least average price: no price that is not NaN is below it. The relative
  deviation of the first row is \<open>(price - price) / price * 100\<close> for its own price:
  it is exactly 0 if and only if that price is finite and not zero, and it is NaN
  otherwise.
\<close>

theorem best_deviation_zero:
  assumes "d < length h" and "getitem (h ! d) ''Open'' = Inr opn"
  shows "\<exists>r rest. fst (compare_strategies d h) = Inr (r # rest) \<and>
           Avg_Price r = series_min (map Avg_Price (r # rest)) \<and>
           (\<forall>s\<in>set rest. Avg_Price s \<noteq> NaN \<longrightarrow> fle (Avg_Price r) (Avg_Price s)) \<and>
           Relative_Deviation r =
             fmul (fdiv (fsub (Avg_Price r) (Avg_Price r)) (Avg_Price r)) (Fin 100) \<and>
           (Relative_Deviation r = Fin 0 \<or> Relative_Deviation r = NaN) \<and>
           (Relative_Deviation r = Fin 0 \<longleftrightarrow> (\<exists>x. x \<noteq> 0 \<and> Avg_Price r = Fin x))"
proof -
  let ?df = "h ! d"
  obtain fin nans where t: "ranked_table ?df =
       set_relative_deviation (case fin of [] \<Rightarrow> NaN | r # _ \<Rightarrow> Avg_Price r) (fin @ nans)"
    and srt: "sorted_wrt (\<lambda>a b. fle (Avg_Price a) (Avg_Price b)) fin"
    and fin: "\<forall>r\<in>set fin. Avg_Price r \<noteq> NaN" and nans: "\<forall>r\<in>set nans. Avg_Price r = NaN"
    and set: "set (fin @ nans) = set (all_results ?df)"
    using ranked_table_split [of ?df] by blast
  let ?m = "case fin of [] \<Rightarrow> NaN | r # _ \<Rightarrow> Avg_Price r"
  have ne: "fin @ nans \<noteq> []"
    using length_ranked_table [of ?df] unfolding t by (auto simp: set_relative_deviation_def)
  then obtain s ss where s: "fin @ nans = s # ss" by (cases "fin @ nans") auto
  have sm: "Avg_Price s = ?m"
  proof (cases fin)
    case Nil
    then show ?thesis using s nans by auto
  next
    case (Cons a as)
    then show ?thesis using s by simp
  qed
  define r where "r = \<lparr>Strategy = Strategy s, Avg_Price = Avg_Price s,
                       Relative_Deviation = relative_deviation ?m (Avg_Price s)\<rparr>"
  define rest where "rest = set_relative_deviation ?m ss"
  have tab: "ranked_table ?df = r # rest"
    unfolding t s by (simp add: set_relative_deviation_def r_def rest_def)
  have prices: "map Avg_Price (r # rest) = map Avg_Price (fin @ nans)"
    unfolding s by (simp add: r_def rest_def set_relative_deviation_def o_def)
  have min: "series_min (map Avg_Price (r # rest)) = ?m"
    unfolding prices by (rule series_min_split [OF srt fin nans])
  have dev: "Relative_Deviation r = relative_deviation (Avg_Price r) (Avg_Price r)"
    using sm by (simp add: r_def)
  have c1: "fst (compare_strategies d h) = Inr (r # rest)"
    using compare_strategies_table [OF assms] tab by simp
  have c2: "Avg_Price r = series_min (map Avg_Price (r # rest))"
    using min sm by (simp add: r_def)
  have c2': "\<forall>s\<in>set rest. Avg_Price s \<noteq> NaN \<longrightarrow> fle (Avg_Price r) (Avg_Price s)"
  proof (intro ballI impI)
    fix q assume q: "q \<in> set rest" "Avg_Price q \<noteq> NaN"
    then have "\<exists>x\<in>set (map Avg_Price (r # rest)). x \<noteq> NaN" by auto
    then have "\<forall>x\<in>set (map Avg_Price (r # rest)). x \<noteq> NaN \<longrightarrow>
        fle (series_min (map Avg_Price (r # rest))) x"
      using series_min_least [of "map Avg_Price (r # rest)"] by blast
    then show "fle (Avg_Price r) (Avg_Price q)" unfolding c2 [symmetric] using q by simp
  qed
  have c2'': "Relative_Deviation r =
             fmul (fdiv (fsub (Avg_Price r) (Avg_Price r)) (Avg_Price r)) (Fin 100)"
    unfolding dev by (simp add: relative_deviation_def)
  have c3: "Relative_Deviation r = Fin 0 \<or> Relative_Deviation r = NaN"
    unfolding dev relative_deviation_self by (cases "Avg_Price r") auto
  have c4: "Relative_Deviation r = Fin 0 \<longleftrightarrow> (\<exists>x. x \<noteq> 0 \<and> Avg_Price r = Fin x)"
    unfolding dev relative_deviation_self by (cases "Avg_Price r") auto
  show ?thesis by (intro exI [of _ r] exI [of _ rest] conjI c1 c2 c2' c2'' c3 c4)
qed

theorem best_deviation_zero_witness:
  "\<exists>r rest. fst (compare_strategies 0 [fixture_two_days]) = Inr (r # rest) \<and>
      Avg_Price r = Fin 25 \<and> Relative_Deviation r = Fin 0"
proof -
  have p: "0 < length [fixture_two_days]" by simp
  have o: "getitem ([fixture_two_days] ! 0) ''Open'' = Inr [Fin 25, Fin 100, Fin 100]"
    by (simp add: fixture_two_days_def getitem_def)
  obtain r rest where t: "fst (compare_strategies 0 [fixture_two_days]) = Inr (r # rest)"
    and m: "Avg_Price r = series_min (map Avg_Price (r # rest))"
    and z: "Relative_Deviation r = Fin 0 \<longleftrightarrow> (\<exists>x. x \<noteq> 0 \<and> Avg_Price r = Fin x)"
    using best_deviation_zero [OF p o] by blast
  have "r # rest = ranked_table fixture_two_days"
    using compare_strategies_table [OF p o] t by simp
  then have a: "Avg_Price r = Fin 25" using m min_ranked_fixture_two_days by simp
  then have "Relative_Deviation r = Fin 0" using z by simp
  then show ?thesis using t a by blast
qed

text \<open>
  C7 as stated fails when the accepted date range lies in a gap of the data: the
  dates pass the test of line 137, the filtered table has no row, every strategy
  gets the price NaN, and the relative deviation of the first row is NaN, not 0.
\<close>

theorem best_deviation_not_zero_in_gap:
  "date_range_ok fixture_gap (3 * ns_per_day) (4 * ns_per_day) \<and>
   map_sum id (Relative_Deviation \<circ> hd \<circ> fst)
     (fst (main 0 (3 * ns_per_day) (4 * ns_per_day) [fixture_gap])) = Inr NaN"
proof -
  have "fst (main 0 (3 * ns_per_day) (4 * ns_per_day) [fixture_gap]) =
          Inr (ranked_table \<lparr>index = [], columns = [(''Open'', [])]\<rparr>,
               visualize_bar_chart (ranked_table \<lparr>index = [], columns = [(''Open'', [])]\<rparr>),
               visualize_filtered_bar_chart (ranked_table \<lparr>index = [], columns = [(''Open'', [])]\<rparr>))"
    by (rule main_table [where opn = "[]"]) (simp_all add: loc_slice_fixture_gap getitem_def)
  moreover have "date_range_ok fixture_gap (3 * ns_per_day) (4 * ns_per_day)"
    by (simp add: date_range_ok_def fixture_gap_def ns_per_day_def ns_per_hour_def)
  ultimately show ?thesis
    by (simp add: hd_ranked_table_no_rows)
qed

subsection \<open>C8\<close>

text \<open>
  C8. A call of any of the three simulators leaves every frame of the store as it
  was, the table it was given among them (its index and its columns are the same
  before and after): the store only grows, and the frame \<open>purchases\<close> the simulator
  assigns columns to is one it has allocated itself.
\<close>

theorem simulators_keep_input:
  assumes "data < length h"
  shows
    "take (length h) (snd (simulate_hourly_dca data amount h)) = h \<and>
     snd (simulate_hourly_dca data amount h) ! data = h ! data \<and>
     (\<forall>purchases avg. fst (simulate_hourly_dca data amount h) = Inr (purchases, avg) \<longrightarrow>
        length h \<le> purchases \<and> purchases < length (snd (simulate_hourly_dca data amount h))) \<and>
     take (length h) (snd (simulate_daily_dca data hour amount h)) = h \<and>
     snd (simulate_daily_dca data hour amount h) ! data = h ! data \<and>
     (\<forall>purchases avg. fst (simulate_daily_dca data hour amount h) = Inr (purchases, avg) \<longrightarrow>
        length h \<le> purchases \<and> purchases < length (snd (simulate_daily_dca data hour amount h))) \<and>
     take (length h) (snd (simulate_weekly_dca data weekday hour amount h)) = h \<and>
     snd (simulate_weekly_dca data weekday hour amount h) ! data = h ! data \<and>
     (\<forall>purchases avg. fst (simulate_weekly_dca data weekday hour amount h) = Inr (purchases, avg) \<longrightarrow>
        length h \<le> purchases \<and>
        purchases < length (snd (simulate_weekly_dca data weekday hour amount h)))"
  using assms
  by (auto simp add: simulate_hourly_dca_eq simulate_daily_dca_eq simulate_weekly_dca_eq Let_def
      nth_append split: sum.splits)

theorem simulators_keep_input_witness:
  "snd (simulate_hourly_dca 0 (Fin 100) [fixture_10_20_30]) ! 0 = fixture_10_20_30 \<and>
   snd (simulate_daily_dca 0 0 (Fin 100) [fixture_10_20_30]) ! 0 = fixture_10_20_30 \<and>
   snd (simulate_weekly_dca 0 3 0 (Fin 100) [fixture_10_20_30]) ! 0 = fixture_10_20_30"
  using simulators_keep_input [of 0 "[fixture_10_20_30]" "Fin 100" 0 3]
  by simp

subsection \<open>C10\<close>

text \<open>
  C10, as the code has it. In the ranked table the rows whose price is NaN come
  after all the others. The least price \<open>best\<close> the deviations are computed from is
  NaN exactly when no strategy has a price; otherwise it is the price of the
  first row, and no price of the table that is not NaN is below it. The
  deviation of every row is \<open>(price - best) / best * 100\<close>, and for a row with a
  finite price it is not NaN whenever \<open>best\<close> is finite and not zero. When the Open
  prices are positive, some strategy has a price exactly when the filtered table
  has a row.
\<close>

theorem nan_ranked_last:
  assumes "d < length h" and "getitem (h ! d) ''Open'' = Inr opn"
  shows "\<exists>fin nans best. fst (compare_strategies d h) = Inr (fin @ nans) \<and>
           (\<forall>r\<in>set fin. Avg_Price r \<noteq> NaN) \<and> (\<forall>r\<in>set nans. Avg_Price r = NaN) \<and>
           best = series_min (map Avg_Price (fin @ nans)) \<and>
           (best = NaN \<longleftrightarrow> fin = []) \<and>
           (fin \<noteq> [] \<longrightarrow> best = Avg_Price (hd fin)) \<and>
           (\<forall>r\<in>set fin. fle best (Avg_Price r)) \<and>
           (\<forall>r\<in>set (fin @ nans).
              Relative_Deviation r = fmul (fdiv (fsub (Avg_Price r) best) best) (Fin 100)) \<and>
           (\<forall>r\<in>set fin. \<forall>x m. Avg_Price r = Fin x \<and> best = Fin m \<and> m \<noteq> 0 \<longrightarrow>
              Relative_Deviation r \<noteq> NaN) \<and>
           (length opn = length (index (h ! d)) \<and> (\<forall>v\<in>set opn. \<exists>p. 0 < p \<and> v = Fin p) \<longrightarrow>
              (fin = [] \<longleftrightarrow> index (h ! d) = []))"
proof -
  let ?df = "h ! d"
  obtain fin0 nans0 where t: "ranked_table ?df =
       set_relative_deviation (case fin0 of [] \<Rightarrow> NaN | r # _ \<Rightarrow> Avg_Price r) (fin0 @ nans0)"
    and srt: "sorted_wrt (\<lambda>a b. fle (Avg_Price a) (Avg_Price b)) fin0"
    and fin0: "\<forall>r\<in>set fin0. Avg_Price r \<noteq> NaN" and nans0: "\<forall>r\<in>set nans0. Avg_Price r = NaN"
    and set: "set (fin0 @ nans0) = set (all_results ?df)"
    using ranked_table_split [of ?df] by blast
  define m where "m = (case fin0 of [] \<Rightarrow> NaN | r # _ \<Rightarrow> Avg_Price r)"
  define fin where "fin = set_relative_deviation m fin0"
  define nans where "nans = set_relative_deviation m nans0"
  have tab: "ranked_table ?df = fin @ nans"
    unfolding t fin_def nans_def m_def by (simp add: set_relative_deviation_def)
  have c1: "fst (compare_strategies d h) = Inr (fin @ nans)"
    using compare_strategies_table [OF assms] tab by simp
  have c2: "\<forall>r\<in>set fin. Avg_Price r \<noteq> NaN"
    using fin0 by (auto simp: fin_def set_relative_deviation_def)
  have c3: "\<forall>r\<in>set nans. Avg_Price r = NaN"
    using nans0 by (auto simp: nans_def set_relative_deviation_def)
  have prices: "map Avg_Price (fin @ nans) = map Avg_Price (fin0 @ nans0)"
    by (simp add: fin_def nans_def set_relative_deviation_def o_def)
  have min: "m = series_min (map Avg_Price (fin @ nans))"
    unfolding prices m_def by (rule series_min_split [OF srt fin0 nans0, symmetric])
  have empty: "fin = [] \<longleftrightarrow> fin0 = []"
    by (simp add: fin_def set_relative_deviation_def)
  have c4: "m = NaN \<longleftrightarrow> fin = []"
    unfolding empty using fin0 by (cases fin0) (auto simp: m_def)
  have c5: "fin \<noteq> [] \<longrightarrow> m = Avg_Price (hd fin)"
    by (cases fin0) (auto simp: m_def fin_def set_relative_deviation_def)
  have c6: "\<forall>r\<in>set fin. fle m (Avg_Price r)"
  proof
    fix r assume "r \<in> set fin"
    then obtain s where s: "s \<in> set fin0" "Avg_Price r = Avg_Price s"
      by (auto simp: fin_def set_relative_deviation_def)
    then obtain a as where f: "fin0 = a # as" by (cases fin0) auto
    have "fle (Avg_Price a) (Avg_Price s)"
      using sorted_wrt_first [of a as s] srt s fin0 f by simp
    then show "fle m (Avg_Price r)" using s f by (simp add: m_def)
  qed
  have c7: "\<forall>r\<in>set (fin @ nans).
              Relative_Deviation r = fmul (fdiv (fsub (Avg_Price r) m) m) (Fin 100)"
    by (auto simp: fin_def nans_def set_relative_deviation_def relative_deviation_def)
  have c8: "\<forall>r\<in>set fin. \<forall>x y. Avg_Price r = Fin x \<and> m = Fin y \<and> y \<noteq> 0 \<longrightarrow>
              Relative_Deviation r \<noteq> NaN"
    using c7 by (auto simp: fsub_def)
  have c9: "fin = [] \<longleftrightarrow> index ?df = []"
    if hyp: "length opn = length (index ?df) \<and> (\<forall>v\<in>set opn. \<exists>p. 0 < p \<and> v = Fin p)"
  proof
    assume "fin = []"
    then have "\<forall>r\<in>set (all_results ?df). Avg_Price r = NaN"
      using set nans0 empty by auto
    then show "index ?df = []"
      using all_results_some_price [OF assms(2)] hyp by blast
  next
    assume "index ?df = []"
    then have "\<forall>r\<in>set (all_results ?df). Avg_Price r = NaN"
      using all_results_no_rows by blast
    moreover have "set (all_results ?df) = set fin0 \<union> set nans0" using set by simp
    ultimately have "\<forall>r\<in>set fin0. Avg_Price r = NaN" by simp
    then have "fin0 = []" using fin0 by (cases fin0) auto
    then show "fin = []" using empty by simp
  qed
  have c10: "length opn = length (index ?df) \<and> (\<forall>v\<in>set opn. \<exists>p. 0 < p \<and> v = Fin p) \<longrightarrow>
              (fin = [] \<longleftrightarrow> index ?df = [])"
    using c9 by blast
  show ?thesis
    apply (rule exI [of _ fin])
    apply (rule exI [of _ nans])
    apply (rule exI [of _ m])
    apply (intro conjI c1 c2 c3 min c4 c5 c6 c7 c8 c10)
    done
qed

theorem nan_ranked_last_witness:
  "\<exists>fin nans. fst (compare_strategies 0 [fixture_two_days]) = Inr (fin @ nans) \<and>
      (\<forall>r\<in>set fin. Avg_Price r \<noteq> NaN) \<and> (\<forall>r\<in>set nans. Avg_Price r = NaN) \<and>
      fin \<noteq> [] \<and> series_min (map Avg_Price (fin @ nans)) = Fin 25 \<and>
      Avg_Price (hd fin) = Fin 25 \<and>
      \<lparr>Strategy = ''Hourly'', Avg_Price = Fin 50, Relative_Deviation = Fin 100\<rparr> \<in> set fin \<and>
      \<lparr>Strategy = ''Daily 2:00'', Avg_Price = NaN, Relative_Deviation = NaN\<rparr> \<in> set nans \<and>
      (\<forall>r\<in>set fin. Relative_Deviation r \<noteq> NaN)"
proof -
  have p: "0 < length [fixture_two_days]" by simp
  have o: "getitem ([fixture_two_days] ! 0) ''Open'' = Inr [Fin 25, Fin 100, Fin 100]"
    by (simp add: fixture_two_days_def getitem_def)
  obtain fin nans best where t: "fst (compare_strategies 0 [fixture_two_days]) = Inr (fin @ nans)"
    and f: "\<forall>r\<in>set fin. Avg_Price r \<noteq> NaN" and n: "\<forall>r\<in>set nans. Avg_Price r = NaN"
    and b: "best = series_min (map Avg_Price (fin @ nans))"
    and e: "best = NaN \<longleftrightarrow> fin = []"
    and hd: "fin \<noteq> [] \<longrightarrow> best = Avg_Price (hd fin)"
    and dev: "\<forall>r\<in>set fin. \<forall>x m. Avg_Price r = Fin x \<and> best = Fin m \<and> m \<noteq> 0 \<longrightarrow>
              Relative_Deviation r \<noteq> NaN"
    using nan_ranked_last [OF p o] by blast
  have tab: "fin @ nans = ranked_table fixture_two_days"
    using compare_strategies_table [OF p o] t by simp
  have best: "best = Fin 25" unfolding b tab by (rule min_ranked_fixture_two_days)
  then have ne: "fin \<noteq> []" using e by auto
  then have h: "Avg_Price (hd fin) = Fin 25" using hd best by simp
  have m: "series_min (map Avg_Price (fin @ nans)) = Fin 25" using b best by simp
  have "\<lparr>Strategy = ''Hourly'', Avg_Price = Fin 50, Relative_Deviation = Fin 100\<rparr>
      \<in> set (fin @ nans)"
    unfolding tab by (rule rows_fixture_two_days)
  then have r1: "\<lparr>Strategy = ''Hourly'', Avg_Price = Fin 50, Relative_Deviation = Fin 100\<rparr>
      \<in> set fin"
    using n by force
  have "\<lparr>Strategy = ''Daily 2:00'', Avg_Price = NaN, Relative_Deviation = NaN\<rparr>
      \<in> set (fin @ nans)"
    unfolding tab by (rule rows_fixture_two_days)
  then have r2: "\<lparr>Strategy = ''Daily 2:00'', Avg_Price = NaN, Relative_Deviation = NaN\<rparr>
      \<in> set nans"
    using f by force
  have d: "\<forall>r\<in>set fin. Relative_Deviation r \<noteq> NaN"
  proof
    fix r assume r: "r \<in> set fin"
    then have "r \<in> set (ranked_table fixture_two_days)" using tab by (metis Un_iff set_append)
    then obtain q where "q \<in> set (all_results fixture_two_days)" "Avg_Price r = Avg_Price q"
      using ranked_table_entry by blast
    then have "Avg_Price r \<in> {Fin 25, Fin 40, Fin 50, Fin 100, NaN}"
      using entries_fixture_two_days(1) by metis
    then obtain x where "Avg_Price r = Fin x" using f r by auto
    then show "Relative_Deviation r \<noteq> NaN" using dev r best by simp
  qed
  show ?thesis by (intro exI [of _ fin] exI [of _ nans] conjI t f n ne m h r1 r2 d)
qed

text \<open>
  C10 as stated fails when the accepted date range lies in a gap of the data: no
  strategy matches a row, and the least price the deviations are computed from
  is NaN.
\<close>

theorem minimum_is_nan_in_gap:
  "date_range_ok fixture_gap (3 * ns_per_day) (4 * ns_per_day) \<and>
   map_sum id (series_min \<circ> map Avg_Price \<circ> fst)
     (fst (main 0 (3 * ns_per_day) (4 * ns_per_day) [fixture_gap])) = Inr NaN"
proof -
  have "fst (main 0 (3 * ns_per_day) (4 * ns_per_day) [fixture_gap]) =
          Inr (ranked_table \<lparr>index = [], columns = [(''Open'', [])]\<rparr>,
               visualize_bar_chart (ranked_table \<lparr>index = [], columns = [(''Open'', [])]\<rparr>),
               visualize_filtered_bar_chart (ranked_table \<lparr>index = [], columns = [(''Open'', [])]\<rparr>))"
    by (rule main_table [where opn = "[]"]) (simp_all add: loc_slice_fixture_gap getitem_def)
  moreover have "date_range_ok fixture_gap (3 * ns_per_day) (4 * ns_per_day)"
    by (simp add: date_range_ok_def fixture_gap_def ns_per_day_def ns_per_hour_def)
  ultimately show ?thesis
    by (simp add: hd_ranked_table_no_rows)
qed

end
